theory Spec2Isabelle
  imports Complex_Main "HOL-Library.Sublist" "HOL-Library.AList"
begin

section \<open>Python strings\<close>

text \<open>
  The functions of the extractor keep their Python names, without the leading underscore
  of a private one (\<open>_eval_node\<close> is \<open>eval_node\<close>). A function that can raise returns a
  sum, with the exception on the left.

  A Python \<open>str\<close> is modelled as a \<open>string\<close> whose characters are the code points
  below 256; a \<open>bytes\<close> object is a \<open>string\<close> of bytes. The built-in string methods
  the extractor calls are written out below for that range.
\<close>

definition isspace :: "char \<Rightarrow> bool" where
  \<comment> \<open>\<open>str.isspace\<close> on one character, which is also the class \<open>\s\<close> of \<open>re\<close> on a \<open>str\<close>
      pattern: TAB, LF, VT, FF, CR, FS, GS, RS, US, space, NEL and NBSP.\<close>
  "isspace c = ((of_char c :: nat) \<in> {9, 10, 11, 12, 13, 28, 29, 30, 31, 32, 133, 160})"

definition py_lstrip :: "(char \<Rightarrow> bool) \<Rightarrow> string \<Rightarrow> string" where
  "py_lstrip P s = dropWhile P s"

definition py_rstrip :: "(char \<Rightarrow> bool) \<Rightarrow> string \<Rightarrow> string" where
  "py_rstrip P s = rev (dropWhile P (rev s))"

definition py_strip :: "(char \<Rightarrow> bool) \<Rightarrow> string \<Rightarrow> string" where
  \<comment> \<open>\<open>s.strip()\<close> is \<open>py_strip isspace s\<close>; \<open>s.strip(chars)\<close> is \<open>py_strip (\<lambda>c. c \<in> set chars) s\<close>.\<close>
  "py_strip P s = py_rstrip P (py_lstrip P s)"

definition char_lower :: "char \<Rightarrow> char" where
  \<comment> \<open>\<open>str.lower\<close> on one character below 256: A-Z and the Latin-1 capitals
      (U+00C0 to U+00DE without the multiplication sign U+00D7) move up by 32.\<close>
  "char_lower c =
     (let n = (of_char c :: nat)
      in if (65 \<le> n \<and> n \<le> 90) \<or> (192 \<le> n \<and> n \<le> 222 \<and> n \<noteq> 215)
         then char_of (n + 32) else c)"

definition lower :: "string \<Rightarrow> string" where
  "lower s = map char_lower s"

fun startswith :: "string \<Rightarrow> string \<Rightarrow> bool" where
  \<comment> \<open>\<open>s.startswith(p)\<close>\<close>
  "startswith s [] = True"
| "startswith [] (p # ps) = False"
| "startswith (c # cs) (p # ps) = (c = p \<and> startswith cs ps)"

fun py_in :: "string \<Rightarrow> string \<Rightarrow> bool" where
  \<comment> \<open>\<open>needle in s\<close> on strings: \<open>needle\<close> occurs in \<open>s\<close> as a contiguous run.\<close>
  "py_in needle [] = (needle = [])"
| "py_in needle (c # cs) = (startswith (c # cs) needle \<or> py_in needle cs)"

definition truthy :: "string option \<Rightarrow> bool" where
  \<comment> \<open>The truth value of a \<open>str | None\<close>: \<open>None\<close> and the empty string are false.\<close>
  "truthy v = (case v of None \<Rightarrow> False | Some s \<Rightarrow> s \<noteq> [])"

section \<open>utils.py: URL normalisation and classification\<close>

definition quote_chars :: "char set" where
  \<comment> \<open>the argument of \<open>.strip("'\"")\<close>\<close>
  "quote_chars = {CHR 0x27, CHR 0x22}"

definition trailing_chars :: "char set" where
  \<comment> \<open>the argument of \<open>.rstrip(")]>.,;\"' ")\<close>\<close>
  "trailing_chars =
     {CHR '')'', CHR '']'', CHR ''>'', CHR ''.'', CHR '','', CHR '';'', CHR 0x22, CHR 0x27, CHR '' ''}"

definition trim :: "string \<Rightarrow> string" where
  \<comment> \<open>\<open>raw.strip().strip("'\"")\<close>, the first statement of \<open>normalize_url\<close>\<close>
  "trim raw = py_strip (\<lambda>c. c \<in> quote_chars) (py_strip isspace raw)"

definition normalize_url :: "string \<Rightarrow> string option" where
  "normalize_url raw0 =
     (let raw = trim raw0
      in if raw = [] then None
         else let raw = py_rstrip (\<lambda>c. c \<in> trailing_chars) raw;
                  raw = (if startswith raw ''feed://'' then ''http://'' @ drop (length ''feed://'') raw
                         else raw)
              in Some raw)"

definition feed_needles :: "string list" where
  "feed_needles = [''/rss'', ''.rss'', ''/atom'', ''.atom'', ''.xml'']"

definition classify_url :: "string \<Rightarrow> string option \<Rightarrow> string option \<Rightarrow> string" where
  \<comment> \<open>\<open>classify_url(url, source, attr_name)\<close>; an argument left out is \<open>None\<close>.\<close>
  "classify_url url source attr_name =
     (let u = lower url
      in if source = Some ''feeds'' \<or> (truthy attr_name \<and> py_in ''feed'' (lower (the attr_name)))
         then ''feed''
         else if list_ex (\<lambda>x. py_in x u) feed_needles then ''feed''
         else if py_in ''/api/'' u \<or> py_in ''.json'' u \<or> py_in ''api.'' u then ''api''
         else ''html'')"

section \<open>recipe_parser.py: values and syntax trees\<close>

text \<open>
  The values a fold can produce. \<open>VNone\<close> is Python's \<open>None\<close>, which the folder also
  returns for "cannot resolve". A float is carried around and never computed with, so
  its payload is only a name for the double. A \<open>bool\<close> is an \<open>int\<close> for \<open>isinstance\<close>.
\<close>

datatype pyval =
    VNone
  | VEllipsis
  | VBool bool
  | VInt int
  | VFloat string
  | VComplex string
  | VStr string
  | VBytes string
  | VList "pyval list"
  | VTuple "pyval list"

datatype py_error = TypeError | ValueError | ParseError | OtherError

datatype operator = Add | OtherOp

text \<open>
  The node classes of \<open>ast\<close> that the parser module tells apart; every other expression
  class is \<open>OtherExpr\<close>, every other statement class \<open>OtherStmt\<close>. \<open>ListNode\<close> is
  \<open>ast.List\<close>. A keyword argument is the pair of \<open>kw.arg\<close> (\<open>None\<close> for \<open>**d\<close>) and
  \<open>kw.value\<close>. Since Python 3.8 the parser builds \<open>ast.Constant\<close> for every literal, so
  the \<open>ast.Str\<close> and \<open>ast.Bytes\<close> tests of \<open>_eval_node\<close> can only hold for a node that
  the \<open>ast.Constant\<close> test before them has already taken.
\<close>

datatype expr =
    Constant pyval
  | Name string
  | Tuple "expr list"
  | ListNode "expr list"
  | BinOp expr operator expr
  | JoinedStr "expr list"
  | FormattedValue expr
  | Call expr "expr list" "(string option \<times> expr) list"
  | Attribute expr string
  | OtherExpr

datatype stmt =
    Assign "expr list" expr
  | AnnAssign expr "expr option"
  | AugAssign expr operator expr
  | ClassDef string "expr list" "stmt list"
  | OtherStmt

text \<open>
  The library calls whose results the module only passes on, as parameters of the model:
  \<open>html.unescape\<close> (which raises \<open>ValueError\<close> on a decimal character reference of more
  digits than the interpreter converts), \<open>ast.parse\<close> (the syntax tree's \<open>body\<close>, or the
  message of the \<open>SyntaxError\<close>, or another exception), \<open>str(v)\<close> on a value that is
  neither a \<open>str\<close> nor a \<open>bytes\<close> (it raises \<open>ValueError\<close> on an \<open>int\<close> of too many
  digits), \<open>str(b)\<close> on a \<open>bytes\<close>, \<open>base.format(*args, **kwargs)\<close> (\<open>None\<close> when it raises
  an \<open>Exception\<close>) and \<open>b.decode("utf-8", "replace")\<close>. The interpreter's limits on
  recursion depth and memory are outside the model.
\<close>

datatype parse_result = Parsed "stmt list" | SyntaxError string | ParseRaises py_error

record builtins =
  html_unescape :: "string \<Rightarrow> py_error + string"
  ast_parse :: "string \<Rightarrow> parse_result"
  py_str :: "pyval \<Rightarrow> py_error + string"
  bytes_repr :: "string \<Rightarrow> string"
  str_format :: "string \<Rightarrow> pyval list \<Rightarrow> (string \<times> pyval) list \<Rightarrow> string option"
  bytes_decode :: "string \<Rightarrow> string"

definition and_then :: "py_error + 'a \<Rightarrow> ('a \<Rightarrow> py_error + 'b) \<Rightarrow> py_error + 'b" where
  \<comment> \<open>one statement after another: an exception in the first ends the function\<close>
  "and_then r f = (case r of Inl e \<Rightarrow> Inl e | Inr x \<Rightarrow> f x)"

type_synonym dict = "(string \<times> pyval) list"

text \<open>
  A \<open>dict\<close> with string keys is the list of its items in insertion order:
  \<open>d.get(k)\<close> is \<open>map_of d k\<close>, \<open>d[k] = v\<close> is \<open>AList.update k v d\<close> (an existing key keeps
  its place, a new one goes last) and \<open>d | e\<close> is \<open>dict_union d e\<close>.
\<close>

definition dict_of_items :: "(string \<times> 'a) list \<Rightarrow> (string \<times> 'a) list" where
  "dict_of_items kvs = fold (\<lambda>(k, v). AList.update k v) kvs []"

definition dict_union :: "dict \<Rightarrow> dict \<Rightarrow> dict" where
  "dict_union d e = fold (\<lambda>(k, v). AList.update k v) e d"

definition get :: "dict \<Rightarrow> string \<Rightarrow> pyval" where
  \<comment> \<open>\<open>d.get(k)\<close>, with \<open>None\<close> for a missing key\<close>
  "get d k = (case map_of d k of None \<Rightarrow> VNone | Some v \<Rightarrow> v)"

definition str_of :: "builtins \<Rightarrow> pyval \<Rightarrow> py_error + string" where
  \<comment> \<open>\<open>str(v)\<close>: a \<open>str\<close> is returned as it is\<close>
  "str_of B v =
     (case v of VStr s \<Rightarrow> Inr s | VBytes b \<Rightarrow> Inr (bytes_repr B b) | _ \<Rightarrow> py_str B v)"

section \<open>recipe_parser.py: the constant folder\<close>

fun collect :: "(py_error + pyval) list \<Rightarrow> py_error + pyval list" where
  \<comment> \<open>A comprehension \<open>[_eval_node(e, constants) for e in es]\<close>: the elements in order,
      the first exception ends it.\<close>
  "collect [] = Inr []"
| "collect (Inl e # rs) = Inl e"
| "collect (Inr v # rs) = (case collect rs of Inl e \<Rightarrow> Inl e | Inr vs \<Rightarrow> Inr (v # vs))"

fun join_parts :: "builtins \<Rightarrow> (py_error + pyval) list \<Rightarrow> string list \<Rightarrow> py_error + pyval" where
  \<comment> \<open>The loop over \<open>node.values\<close> of a \<open>JoinedStr\<close>: it returns \<open>None\<close> at the first part
      that folds to \<open>None\<close>, before any later part is folded.\<close>
  "join_parts B [] parts = Inr (VStr (concat parts))"
| "join_parts B (Inl e # rs) parts = Inl e"
| "join_parts B (Inr v # rs) parts =
     (if v = VNone then Inr VNone
      else case str_of B v of
             Inl e \<Rightarrow> Inl e
           | Inr s \<Rightarrow> join_parts B rs (parts @ [s]))"

definition is_str_or_bytes :: "pyval \<Rightarrow> bool" where
  \<comment> \<open>\<open>isinstance(v, (str, bytes))\<close>\<close>
  "is_str_or_bytes v = (case v of VStr s \<Rightarrow> True | VBytes b \<Rightarrow> True | _ \<Rightarrow> False)"

definition is_list :: "pyval \<Rightarrow> bool" where
  \<comment> \<open>\<open>isinstance(v, list)\<close>\<close>
  "is_list v = (case v of VList xs \<Rightarrow> True | _ \<Rightarrow> False)"

fun py_add :: "pyval \<Rightarrow> pyval \<Rightarrow> py_error + pyval" where
  \<comment> \<open>\<open>left + right\<close> for operands that are each a \<open>str\<close> or a \<open>bytes\<close>, or both a
      \<open>list\<close> (the only pairs \<open>_eval_node\<close> adds): Python concatenates two operands of
      one type and raises \<open>TypeError\<close> for a \<open>str\<close> with a \<open>bytes\<close>.\<close>
  "py_add (VStr a) (VStr b) = Inr (VStr (a @ b))"
| "py_add (VBytes a) (VBytes b) = Inr (VBytes (a @ b))"
| "py_add (VList a) (VList b) = Inr (VList (a @ b))"
| "py_add a b = Inl TypeError"

fun eval_node :: "builtins \<Rightarrow> expr \<Rightarrow> dict \<Rightarrow> py_error + pyval" where
  "eval_node B (Constant v) constants = Inr v"
| "eval_node B (Name ident) constants = Inr (get constants ident)"
| "eval_node B (Tuple elts) constants =
     (case collect (map (\<lambda>elt. eval_node B elt constants) elts) of
        Inl e \<Rightarrow> Inl e
      | Inr items \<Rightarrow> if list_ex (\<lambda>item. item = VNone) items then Inr VNone else Inr (VTuple items))"
| "eval_node B (ListNode elts) constants =
     (case collect (map (\<lambda>elt. eval_node B elt constants) elts) of
        Inl e \<Rightarrow> Inl e
      | Inr items \<Rightarrow> if list_ex (\<lambda>item. item = VNone) items then Inr VNone else Inr (VList items))"
| "eval_node B (BinOp l op r) constants =
     (if op = Add then
        (case eval_node B l constants of
           Inl e \<Rightarrow> Inl e
         | Inr left \<Rightarrow>
            (case eval_node B r constants of
               Inl e \<Rightarrow> Inl e
             | Inr right \<Rightarrow>
                 if is_str_or_bytes left \<and> is_str_or_bytes right then py_add left right
                 else if is_list left \<and> is_list right then py_add left right
                 else Inr VNone))
      else Inr VNone)"
| "eval_node B (JoinedStr vals) constants =
     join_parts B (map (\<lambda>v. eval_node B v constants) vals) []"
| "eval_node B (FormattedValue v) constants = eval_node B v constants"
| "eval_node B (Call func args keywords) constants =
     (case func of
        Attribute base attr \<Rightarrow>
          if attr = ''format'' then
            (case eval_node B base constants of
               Inl e \<Rightarrow> Inl e
             | Inr (VStr fmt) \<Rightarrow>
                 (case collect (map (\<lambda>a. eval_node B a constants) args) of
                    Inl e \<Rightarrow> Inl e
                  | Inr argv \<Rightarrow>
                     (let named = filter (\<lambda>kw. truthy (fst kw)) keywords
                      in case collect (map (\<lambda>kw. eval_node B (snd kw) constants) named) of
                        Inl e \<Rightarrow> Inl e
                      | Inr kwv \<Rightarrow>
                          let kwargs = dict_of_items (zip (map (\<lambda>kw. the (fst kw)) named) kwv)
                          in if list_ex (\<lambda>a. a = VNone) argv \<or> list_ex (\<lambda>v. v = VNone) (map snd kwargs)
                             then Inr VNone
                             else (case str_format B fmt argv kwargs of
                                     None \<Rightarrow> Inr VNone
                                   | Some s \<Rightarrow> Inr (VStr s))))
             | Inr other \<Rightarrow> Inr VNone)
          else Inr VNone
      | _ \<Rightarrow> Inr VNone)"
| "eval_node B (Attribute v attr) constants = Inr VNone"
| "eval_node B OtherExpr constants = Inr VNone"

section \<open>recipe_parser.py: module constants, the recipe class and its attributes\<close>

fun run_stmts :: "(stmt \<Rightarrow> dict \<Rightarrow> py_error + dict) \<Rightarrow> stmt list \<Rightarrow> dict \<Rightarrow> py_error + dict" where
  \<comment> \<open>A \<open>for\<close> loop over statements that updates one dictionary; an exception ends it.\<close>
  "run_stmts step [] d = Inr d"
| "run_stmts step (s # ss) d = (case step s d of Inl e \<Rightarrow> Inl e | Inr d' \<Rightarrow> run_stmts step ss d')"

definition is_constant_type :: "pyval \<Rightarrow> bool" where
  \<comment> \<open>\<open>isinstance(val, (str, bytes, int, float, list, tuple))\<close>\<close>
  "is_constant_type v =
     (case v of VStr s \<Rightarrow> True | VBytes b \<Rightarrow> True | VInt i \<Rightarrow> True | VBool b \<Rightarrow> True
      | VFloat f \<Rightarrow> True | VList xs \<Rightarrow> True | VTuple xs \<Rightarrow> True | _ \<Rightarrow> False)"

definition module_step :: "builtins \<Rightarrow> stmt \<Rightarrow> dict \<Rightarrow> py_error + dict" where
  "module_step B node constants =
     (case node of
        Assign targets rhs \<Rightarrow>
          (case targets of
             [Name ident] \<Rightarrow>
               (case eval_node B rhs constants of
                  Inl e \<Rightarrow> Inl e
                | Inr val \<Rightarrow>
                    if is_constant_type val then Inr (AList.update ident val constants)
                    else Inr constants)
           | _ \<Rightarrow> Inr constants)
      | _ \<Rightarrow> Inr constants)"

definition collect_module_constants :: "builtins \<Rightarrow> stmt list \<Rightarrow> py_error + dict" where
  "collect_module_constants B body = run_stmts (module_step B) body []"

definition recipe_bases :: "string set" where
  "recipe_bases =
     {''BasicNewsRecipe'', ''AutomaticNewsRecipe'', ''CustomIndexRecipe'', ''CalibrePeriodical''}"

definition is_recipe_base :: "expr \<Rightarrow> bool" where
  "is_recipe_base base =
     (case base of Name ident \<Rightarrow> ident \<in> recipe_bases
      | Attribute v attr \<Rightarrow> attr \<in> recipe_bases
      | _ \<Rightarrow> False)"

fun find_recipe_class :: "stmt list \<Rightarrow> stmt option" where
  "find_recipe_class [] = None"
| "find_recipe_class (ClassDef cname bases body # rest) =
     (if list_ex is_recipe_base bases then Some (ClassDef cname bases body)
      else find_recipe_class rest)"
| "find_recipe_class (node # rest) = find_recipe_class rest"

definition class_step :: "builtins \<Rightarrow> dict \<Rightarrow> stmt \<Rightarrow> dict \<Rightarrow> py_error + dict" where
  \<comment> \<open>One turn of the loop of \<open>_extract_class_assignments\<close> over the class body.\<close>
  "class_step B constants item assigns =
     (case item of
        Assign targets rhs \<Rightarrow>
          (case targets of
             [Name ident] \<Rightarrow>
               (case eval_node B rhs (dict_union constants assigns) of
                  Inl e \<Rightarrow> Inl e
                | Inr val \<Rightarrow>
                    if val \<noteq> VNone then Inr (AList.update ident val assigns) else Inr assigns)
           | _ \<Rightarrow> Inr assigns)
      | AnnAssign target rhs \<Rightarrow>
          (case target of
             Name ident \<Rightarrow>
               (case (case rhs of None \<Rightarrow> Inr VNone
                      | Some r \<Rightarrow> eval_node B r (dict_union constants assigns)) of
                  Inl e \<Rightarrow> Inl e
                | Inr val \<Rightarrow>
                    if val \<noteq> VNone then Inr (AList.update ident val assigns) else Inr assigns)
           | _ \<Rightarrow> Inr assigns)
      | AugAssign target op rhs \<Rightarrow>
          (case target of
             Name ident \<Rightarrow>
               if op = Add then
                 (let current = get assigns ident
                  in case eval_node B rhs (dict_union constants assigns) of
                       Inl e \<Rightarrow> Inl e
                     | Inr extra \<Rightarrow>
                         (case (current, extra) of
                            (VList cur, VList ext) \<Rightarrow> Inr (AList.update ident (VList (cur @ ext)) assigns)
                          | _ \<Rightarrow> Inr assigns))
               else Inr assigns
           | _ \<Rightarrow> Inr assigns)
      | _ \<Rightarrow> Inr assigns)"

definition extract_class_assignments :: "builtins \<Rightarrow> stmt \<Rightarrow> dict \<Rightarrow> py_error + dict" where
  "extract_class_assignments B node constants =
     (case node of
        ClassDef cname bases body \<Rightarrow> run_stmts (class_step B constants) body []
      | _ \<Rightarrow> Inr [])"

section \<open>utils.py and recipe_parser.py: endpoint hits\<close>

text \<open>
  \<open>EndpointHit\<close>, with \<open>hit_context\<close> for its field \<open>context\<close>. \<open>raw_url\<close> holds what the
  extractor puts there: a \<open>str\<close>, or the \<open>bytes\<close> entry of a feeds list.
\<close>

record EndpointHit =
  url :: string
  url_type :: string
  source :: string
  hit_context :: "string option"
  feed_title :: "string option"
  raw_url :: "pyval option"
  confidence :: real

definition url_char :: "char \<Rightarrow> bool" where
  \<comment> \<open>the class \<open>[^\s'\"<>]\<close>\<close>
  "url_char c = (\<not> isspace c \<and> c \<notin> {CHR 0x27, CHR 0x22, CHR ''<'', CHR ''>''})"

definition scheme_at :: "string \<Rightarrow> nat option" where
  \<comment> \<open>The length of the scheme that \<open>https?://\<close> or \<open>feed://\<close> matches at the start.\<close>
  "scheme_at s =
     (if startswith s ''https://'' then Some 8
      else if startswith s ''http://'' then Some 7
      else if startswith s ''feed://'' then Some 7
      else None)"

fun find_urls_in_text :: "string \<Rightarrow> string list" where
  \<comment> \<open>\<open>findall\<close> of \<open>(https?://[^\s'\"<>]+|feed://[^\s'\"<>]+)\<close>: the matches from left to
      right, each the scheme and the longest run of class characters after it (at least
      one), the search going on after the end of a match.\<close>
  "find_urls_in_text [] = []"
| "find_urls_in_text (c # cs) =
     (case scheme_at (c # cs) of
        None \<Rightarrow> find_urls_in_text cs
      | Some k \<Rightarrow>
          (let run = takeWhile url_char (drop k (c # cs))
           in if run = [] then find_urls_in_text cs
              else (take k (c # cs) @ run) # find_urls_in_text (drop (k + length run - 1) cs)))"

definition hit_if :: "string option \<Rightarrow> (string \<Rightarrow> EndpointHit) \<Rightarrow> EndpointHit list" where
  \<comment> \<open>\<open>if url: hits.append(EndpointHit(url=url, ...))\<close>, as the hits it adds\<close>
  "hit_if u mk = (if truthy u then [mk (the u)] else [])"

definition literal_hits :: "string \<Rightarrow> EndpointHit list" where
  \<comment> \<open>the first loop of \<open>parse_recipe_file\<close>\<close>
  "literal_hits raw =
     concat (map (\<lambda>found. hit_if (normalize_url found)
        (\<lambda>u. \<lparr>url = u, url_type = classify_url u (Some ''literal'') None, source = ''literal'',
              hit_context = None, feed_title = None, raw_url = Some (VStr found),
              confidence = 0.6\<rparr>)) (find_urls_in_text raw))"

definition decoded :: "builtins \<Rightarrow> pyval \<Rightarrow> pyval" where
  \<comment> \<open>\<open>v.decode("utf-8", "replace") if isinstance(v, bytes) else v\<close>\<close>
  "decoded B v = (case v of VBytes b \<Rightarrow> VStr (bytes_decode B b) | _ \<Rightarrow> v)"

definition bare_hit :: "pyval \<Rightarrow> string \<Rightarrow> EndpointHit list" where
  "bare_hit entry s =
     hit_if (normalize_url s)
       (\<lambda>u. \<lparr>url = u, url_type = classify_url u (Some ''feeds'') None, source = ''feeds'',
             hit_context = None, feed_title = None, raw_url = Some entry, confidence = 0.95\<rparr>)"

definition titled_hit :: "builtins \<Rightarrow> pyval \<Rightarrow> pyval \<Rightarrow> py_error + EndpointHit list" where
  \<comment> \<open>The branch for a pair \<open>(title, url)\<close>. Only a \<open>url\<close> that is a \<open>str\<close> after decoding
      is normalized, and \<open>str(url)\<close> is then that \<open>str\<close>; \<open>str(title)\<close> is evaluated, and
      can raise, only when the hit is built.\<close>
  "titled_hit B title0 url0 =
     (let title = decoded B title0
      in case decoded B url0 of
           VStr s \<Rightarrow>
             if truthy (normalize_url s) then
               and_then (if title \<noteq> VNone then and_then (str_of B title) (\<lambda>t. Inr (Some t))
                         else Inr None)
                 (\<lambda>ftitle.
                    Inr [\<lparr>url = the (normalize_url s),
                          url_type = classify_url (the (normalize_url s)) (Some ''feeds'') None,
                          source = ''feeds'', hit_context = None, feed_title = ftitle,
                          raw_url = Some (VStr s), confidence = 0.98\<rparr>])
             else Inr []
         | _ \<Rightarrow> Inr [])"

fun entry_hits :: "builtins \<Rightarrow> pyval \<Rightarrow> py_error + EndpointHit list" where
  \<comment> \<open>one turn of the loop of \<open>_feeds_to_endpoints\<close>: the hits it appends\<close>
  "entry_hits B (VStr s) = Inr (bare_hit (VStr s) s)"
| "entry_hits B (VBytes b) = Inr (bare_hit (VBytes b) (bytes_decode B b))"
| "entry_hits B (VList (title # u # rest)) = titled_hit B title u"
| "entry_hits B (VTuple (title # u # rest)) = titled_hit B title u"
| "entry_hits B entry = Inr []"

fun gather :: "('a \<Rightarrow> py_error + 'b list) \<Rightarrow> 'a list \<Rightarrow> py_error + 'b list" where
  \<comment> \<open>a loop that appends what each turn gives; an exception ends it\<close>
  "gather f [] = Inr []"
| "gather f (x # xs) =
     (case f x of
        Inl e \<Rightarrow> Inl e
      | Inr hs \<Rightarrow> (case gather f xs of Inl e \<Rightarrow> Inl e | Inr rest \<Rightarrow> Inr (hs @ rest)))"

definition feeds_to_endpoints :: "builtins \<Rightarrow> pyval \<Rightarrow> py_error + EndpointHit list" where
  "feeds_to_endpoints B feeds =
     (case feeds of
        VList entries \<Rightarrow> gather (entry_hits B) entries
      | VTuple entries \<Rightarrow> gather (entry_hits B) entries
      | _ \<Rightarrow> Inr [])"

definition attr_endpoint :: "string \<Rightarrow> string \<Rightarrow> string \<Rightarrow> EndpointHit list" where
  \<comment> \<open>the hit for the attribute \<open>name\<close>, from the decoded text \<open>s\<close> of its value and from
      \<open>str(value)\<close>\<close>
  "attr_endpoint name s str_value =
     hit_if (normalize_url s)
       (\<lambda>u. \<lparr>url = u, url_type = classify_url u (Some ''attr'') (Some name), source = ''attr'',
             hit_context = Some name, feed_title = None, raw_url = Some (VStr str_value),
             confidence = 0.8\<rparr>)"

definition attr_hit :: "builtins \<Rightarrow> string \<Rightarrow> pyval \<Rightarrow> EndpointHit list" where
  \<comment> \<open>one turn of the loop of \<open>_attr_url_hits\<close>, for the item \<open>(name, v)\<close>; the two cases
      are \<open>isinstance(value, (str, bytes))\<close>\<close>
  "attr_hit B name v =
     (if py_in ''url'' (lower name) then
        (case v of
           VStr s \<Rightarrow> attr_endpoint name s s
         | VBytes b \<Rightarrow> attr_endpoint name (bytes_decode B b) (bytes_repr B b)
         | _ \<Rightarrow> [])
      else [])"

definition attr_url_hits :: "builtins \<Rightarrow> dict \<Rightarrow> EndpointHit list" where
  "attr_url_hits B assigns = concat (map (\<lambda>(name, v). attr_hit B name v) assigns)"

definition hit_wellformed :: "EndpointHit \<Rightarrow> bool" where
  \<comment> \<open>a hit whose \<open>url\<close> is a non-empty result of \<open>normalize_url\<close> and whose \<open>url_type\<close> is
      one of the three types\<close>
  "hit_wellformed h =
     (url h \<noteq> [] \<and> url_type h \<in> {''feed'', ''api'', ''html''}
      \<and> (\<exists>s. normalize_url s = Some (url h)))"

section \<open>recipe_parser.py: parse_recipe_file\<close>

record RecipeMetadata =
  recipe_uid :: string
  title :: "string option"
  author :: "string option"
  description :: "string option"
  language :: "string option"
  publication_type :: "string option"
  needs_subscription :: "string option"
  class_name :: "string option"

definition as_str :: "builtins \<Rightarrow> pyval \<Rightarrow> py_error + string option" where
  "as_str B v =
     (case v of VNone \<Rightarrow> Inr None
      | VBytes b \<Rightarrow> Inr (Some (bytes_decode B b))
      | VStr s \<Rightarrow> Inr (Some s)
      | _ \<Rightarrow> and_then (py_str B v) (\<lambda>s. Inr (Some s)))"

definition null_metadata :: RecipeMetadata where
  "null_metadata =
     \<lparr>recipe_uid = [], title = None, author = None, description = None, language = None,
      publication_type = None, needs_subscription = None, class_name = None\<rparr>"

definition parse_recipe_file ::
  "builtins \<Rightarrow> string \<Rightarrow> py_error + (RecipeMetadata \<times> EndpointHit list \<times> string option)" where
  \<comment> \<open>\<open>parse_recipe_file\<close> on the text that \<open>path.read_text\<close> returned.\<close>
  "parse_recipe_file B file_text =
     and_then (html_unescape B file_text) (\<lambda>raw.
       let url_hits = literal_hits raw
       in case ast_parse B raw of
            SyntaxError exc \<Rightarrow> Inr (null_metadata, url_hits, Some (''SyntaxError: '' @ exc))
          | ParseRaises e \<Rightarrow> Inl e
          | Parsed body \<Rightarrow>
              and_then (collect_module_constants B body) (\<lambda>constants.
                let class_node = find_recipe_class body
                in and_then (case class_node of
                               Some node \<Rightarrow> extract_class_assignments B node constants
                             | None \<Rightarrow> Inr [])
                     (\<lambda>assigns.
                and_then (as_str B (get assigns ''title'')) (\<lambda>title_s.
                and_then (as_str B (get assigns ''__author__'')) (\<lambda>author_s.
                and_then (as_str B (get assigns ''description'')) (\<lambda>description_s.
                and_then (as_str B (get assigns ''language'')) (\<lambda>language_s.
                and_then (as_str B (get assigns ''publication_type'')) (\<lambda>publication_type_s.
                and_then (as_str B (get assigns ''needs_subscription'')) (\<lambda>needs_subscription_s.
                and_then (feeds_to_endpoints B (get assigns ''feeds'')) (\<lambda>feed_hits.
                  Inr (\<lparr>recipe_uid = [], title = title_s, author = author_s,
                        description = description_s, language = language_s,
                        publication_type = publication_type_s,
                        needs_subscription = needs_subscription_s,
                        class_name = (case class_node of
                                        Some (ClassDef cname bases body) \<Rightarrow> Some cname
                                      | _ \<Rightarrow> None)\<rparr>,
                       url_hits @ feed_hits @ attr_url_hits B assigns,
                       None)))))))))))"

section \<open>rss_fallback.py\<close>

text \<open>
  An \<open>xml.etree.ElementTree.Element\<close>: its tag, its attributes, its text and its children.
  \<open>ET.fromstring\<close> is the library's parser: it returns the root element or raises
  \<open>ParseError\<close>, and \<open>parse_feed\<close> takes it as a parameter.
\<close>

datatype element =
  Element (tag: string) (attrib: "(string \<times> string) list") (elem_text: "string option")
    (children: "element list")

definition strip_ns :: "string \<Rightarrow> string" where
  \<comment> \<open>\<open>tag.split("}", 1)[1]\<close> when \<open>"}" in tag\<close>\<close>
  "strip_ns t =
     (if CHR ''}'' \<in> set t then tl (dropWhile (\<lambda>c. c \<noteq> CHR ''}'') t) else t)"

fun find_child_text :: "element list \<Rightarrow> string \<Rightarrow> string option" where
  \<comment> \<open>\<open>_find_child_text(node, name)\<close> on the children of \<open>node\<close>\<close>
  "find_child_text [] name = None"
| "find_child_text (child # rest) name =
     (if strip_ns (tag child) = name \<and> truthy (elem_text child)
      then Some (py_strip isspace (the (elem_text child)))
      else find_child_text rest name)"

fun find_child :: "element list \<Rightarrow> string \<Rightarrow> element option" where
  "find_child [] name = None"
| "find_child (child # rest) name =
     (if strip_ns (tag child) = name then Some child else find_child rest name)"

definition findall :: "element \<Rightarrow> string \<Rightarrow> element list" where
  \<comment> \<open>\<open>node.findall(name)\<close> for a plain tag name: the children with exactly that tag\<close>
  "findall node name = filter (\<lambda>child. tag child = name) (children node)"

fun encoded_content :: "element list \<Rightarrow> string option" where
  \<comment> \<open>the loop that looks for \<open>content:encoded\<close>\<close>
  "encoded_content [] = None"
| "encoded_content (child # rest) =
     (if strip_ns (tag child) = ''encoded'' \<and> truthy (elem_text child) then elem_text child
      else encoded_content rest)"

fun atom_link :: "element list \<Rightarrow> string option \<Rightarrow> string option" where
  \<comment> \<open>the loop over \<open>item.findall("link")\<close>, with the value of \<open>link\<close> so far\<close>
  "atom_link [] link = link"
| "atom_link (link_el # rest) link =
     (let rel = (case map_of (attrib link_el) ''rel'' of None \<Rightarrow> ''alternate'' | Some r \<Rightarrow> r)
      in if rel = ''alternate'' then map_of (attrib link_el) ''href''
         else atom_link rest (if link = None then map_of (attrib link_el) ''href'' else link))"

type_synonym feed_entry = "(string \<times> string option) list"

definition rss_entry :: "element \<Rightarrow> feed_entry" where
  "rss_entry item =
     [(''title'', find_child_text (children item) ''title''),
      (''link'', find_child_text (children item) ''link''),
      (''guid'', find_child_text (children item) ''guid''),
      (''published'', find_child_text (children item) ''pubDate''),
      (''summary'', find_child_text (children item) ''description''),
      (''content'', encoded_content (children item))]"

definition atom_entry :: "element \<Rightarrow> feed_entry" where
  "atom_entry item =
     [(''title'', find_child_text (children item) ''title''),
      (''link'', atom_link (findall item ''link'') None),
      (''guid'', find_child_text (children item) ''id''),
      (''published'',
         (if truthy (find_child_text (children item) ''published'')
          then find_child_text (children item) ''published''
          else find_child_text (children item) ''updated'')),
      (''summary'', find_child_text (children item) ''summary''),
      (''content'', find_child_text (children item) ''content'')]"

definition parse_root :: "element \<Rightarrow> string option \<times> feed_entry list" where
  \<comment> \<open>\<open>parse_feed\<close> after its first line\<close>
  "parse_root root_el =
     (let root_tag = strip_ns (tag root_el)
      in if root_tag = ''rss'' then
           (case find_child (children root_el) ''channel'' of
              None \<Rightarrow> (None, [])
            | Some channel \<Rightarrow>
                (find_child_text (children channel) ''title'',
                 map rss_entry (findall channel ''item'')))
         else if root_tag = ''feed'' then
           (find_child_text (children root_el) ''title'', map atom_entry (findall root_el ''entry''))
         else (None, []))"

definition parse_feed ::
  "(string \<Rightarrow> py_error + element) \<Rightarrow> string \<Rightarrow> py_error + (string option \<times> feed_entry list)" where
  "parse_feed fromstring xml_bytes =
     (case fromstring xml_bytes of
        Inl e \<Rightarrow> Inl e
      | Inr root_el \<Rightarrow> Inr (parse_root root_el))"

section \<open>db.py and fetch_news.py: the link and article tables\<close>

text \<open>
  A table is the list of its rows, a nullable column an \<open>option\<close> with \<open>None\<close> for
  \<open>NULL\<close>. In a \<open>UNIQUE\<close> index of SQLite a \<open>NULL\<close> is distinct from every value, another
  \<open>NULL\<close> included, so two rows collide on a nullable column only when both hold the
  same value that is not \<open>NULL\<close>.
\<close>

definition unique_eq :: "'a option \<Rightarrow> 'a option \<Rightarrow> bool" where
  "unique_eq a b = (a \<noteq> None \<and> a = b)"

text \<open>
  A row of \<open>recipe_endpoints\<close>; \<open>link_\<close> marks the columns \<open>context\<close>, \<open>feed_title\<close>,
  \<open>source\<close>, \<open>confidence\<close> and \<open>raw_url\<close>.
\<close>

record link_row =
  recipe_id :: int
  endpoint_id :: int
  link_context :: "string option"
  link_feed_title :: "string option"
  link_source :: "string option"
  link_confidence :: real
  link_raw_url :: "string option"
  first_seen :: string
  last_seen :: string

definition link_conflict :: "link_row \<Rightarrow> link_row \<Rightarrow> bool" where
  \<comment> \<open>\<open>UNIQUE(recipe_id, endpoint_id, context, feed_title, source)\<close>\<close>
  "link_conflict new old =
     (recipe_id old = recipe_id new \<and> endpoint_id old = endpoint_id new
      \<and> unique_eq (link_context old) (link_context new)
      \<and> unique_eq (link_feed_title old) (link_feed_title new)
      \<and> unique_eq (link_source old) (link_source new))"

definition link_recipe_endpoint ::
  "link_row list \<Rightarrow> string \<Rightarrow> int \<Rightarrow> int \<Rightarrow> string \<Rightarrow> string option \<Rightarrow> string option
     \<Rightarrow> string option \<Rightarrow> real \<Rightarrow> link_row list" where
  \<comment> \<open>\<open>link_recipe_endpoint(conn, recipe_id, endpoint_id, source, context, feed_title,
      raw_url, confidence)\<close> on the table of \<open>conn\<close>; \<open>ts\<close> is what \<open>now_utc_iso()\<close> returns.\<close>
  "link_recipe_endpoint table ts rid eid src ctx ftitle raw conf =
     (let new = \<lparr>recipe_id = rid, endpoint_id = eid, link_context = ctx,
                 link_feed_title = ftitle, link_source = Some src, link_confidence = conf,
                 link_raw_url = raw, first_seen = ts, last_seen = ts\<rparr>
      in if list_ex (link_conflict new) table
         then map (\<lambda>old. if link_conflict new old then old\<lparr>last_seen := ts\<rparr> else old) table
         else table @ [new])"

text \<open>
  The payload of \<open>_insert_article\<close>: both callers build it with these fourteen keys, each
  value a \<open>str\<close> or \<open>None\<close>; \<open>art_\<close> marks the keys \<open>recipe_uid\<close>, \<open>feed_title\<close> and
  \<open>author\<close>. A stored row is the payload with the \<open>id\<close> the table gave it.
\<close>

record article =
  art_recipe_uid :: "string option"
  recipe_title :: "string option"
  art_feed_title :: "string option"
  article_title :: "string option"
  article_url :: "string option"
  article_guid :: "string option"
  art_author :: "string option"
  summary :: "string option"
  published :: "string option"
  fetched_at :: "string option"
  content_html :: "string option"
  content_text :: "string option"
  content_hash :: "string option"
  fingerprint :: "string option"

definition next_rowid :: "(int \<times> article) list \<Rightarrow> int" where
  \<comment> \<open>\<open>INTEGER PRIMARY KEY\<close> left out of the insert: one more than the largest in use\<close>
  "next_rowid table = (if table = [] then 1 else fold max (map fst table) (fst (hd table)) + 1)"

definition insert_article :: "(int \<times> article) list \<Rightarrow> article \<Rightarrow> (int \<times> article) list" where
  \<comment> \<open>\<open>INSERT OR IGNORE\<close>: a row that breaks \<open>recipe_uid TEXT NOT NULL\<close> or
      \<open>fingerprint TEXT UNIQUE\<close> is skipped without an error.\<close>
  "insert_article table payload =
     (if art_recipe_uid payload = None then table
      else if list_ex (\<lambda>row. unique_eq (fingerprint (snd row)) (fingerprint payload)) table then table
      else table @ [(next_rowid table, payload)])"

definition fingerprint_count :: "string \<Rightarrow> (int \<times> article) list \<Rightarrow> nat" where
  \<comment> \<open>the number of stored rows with the fingerprint \<open>f\<close>\<close>
  "fingerprint_count f table = length (filter (\<lambda>row. fingerprint (snd row) = Some f) table)"

section \<open>A worked example\<close>

text \<open>
  The one-line document of the end-to-end example, its syntax tree, and the library calls
  on the texts the examples use. These texts hold no HTML entity but, in one of them, a
  decimal character reference of more than 4300 digits, on which \<open>html.unescape\<close> raises
  \<open>ValueError\<close>; they hold no byte outside ASCII; no example calls \<open>format\<close>, or \<open>str\<close> on
  anything but a \<open>str\<close>; and every text but the example document is taken not to parse,
  with the message \<open>ast.parse\<close> gives for \<open>def (\<close>.
\<close>

definition is_digit :: "char \<Rightarrow> bool" where
  "is_digit c = (48 \<le> (of_char c :: nat) \<and> (of_char c :: nat) \<le> 57)"

fun long_charref :: "string \<Rightarrow> bool" where
  \<comment> \<open>the text holds \<open>&#\<close> followed by more than 4300 decimal digits\<close>
  "long_charref [] = False"
| "long_charref (c # cs) =
     ((startswith (c # cs) ''&#'' \<and> 4300 < length (takeWhile is_digit (drop 2 (c # cs))))
      \<or> long_charref cs)"

definition example_source :: string where
  "example_source =
     ''class R(BasicNewsRecipe): title = \"Example\"; feeds = [(\"Tech\", \"http://ex.com/tech.rss\")]''"

definition example_tree :: "stmt list" where
  "example_tree =
     [ClassDef ''R'' [Name ''BasicNewsRecipe'']
        [Assign [Name ''title''] (Constant (VStr ''Example'')),
         Assign [Name ''feeds'']
           (ListNode [Tuple [Constant (VStr ''Tech''), Constant (VStr ''http://ex.com/tech.rss'')]])]]"

definition example_builtins :: builtins where
  "example_builtins =
     \<lparr>html_unescape = (\<lambda>s. if long_charref s then Inl ValueError else Inr s),
      ast_parse = (\<lambda>s. if s = example_source then Parsed example_tree
                         else SyntaxError ''invalid syntax (<unknown>, line 1)''),
      py_str = (\<lambda>v. Inr []),
      bytes_repr = (\<lambda>b. ''b'' @ [CHR 0x27] @ b @ [CHR 0x27]),
      str_format = (\<lambda>fmt args kwargs. None),
      bytes_decode = (\<lambda>b. b)\<rparr>"

definition example_fromstring :: "string \<Rightarrow> py_error + element" where
  \<comment> \<open>\<open>ET.fromstring\<close> on the payloads of the examples: \<open><html/>\<close> is its one element, and
      the others are not well-formed.\<close>
  "example_fromstring b =
     (if b = ''<html/>'' then Inr (Element ''html'' [] None []) else Inl ParseError)"


section \<open>Facts about the string methods\<close>

lemma startswith_iff: "startswith s p \<longleftrightarrow> (\<exists>r. s = p @ r)"
  by (induction s p rule: startswith.induct) auto

lemma py_in_iff: "py_in needle s \<longleftrightarrow> (\<exists>ps ss. s = ps @ needle @ ss)"
proof (induction s)
  case Nil
  show ?case by simp
next
  case (Cons c cs)
  show ?case
  proof
    assume "py_in needle (c # cs)"
    then consider "startswith (c # cs) needle" | "py_in needle cs" by auto
    then show "\<exists>ps ss. c # cs = ps @ needle @ ss"
    proof cases
      case 1
      then obtain r where "c # cs = needle @ r" by (auto simp: startswith_iff)
      then have "c # cs = [] @ needle @ r" by simp
      then show ?thesis by blast
    next
      case 2
      with Cons.IH obtain ps ss where "cs = ps @ needle @ ss" by blast
      then have "c # cs = (c # ps) @ needle @ ss" by simp
      then show ?thesis by blast
    qed
  next
    assume "\<exists>ps ss. c # cs = ps @ needle @ ss"
    then obtain ps ss where eq: "c # cs = ps @ needle @ ss" by blast
    show "py_in needle (c # cs)"
    proof (cases ps)
      case Nil
      with eq have "startswith (c # cs) needle" by (auto simp: startswith_iff)
      then show ?thesis by simp
    next
      case (Cons p ps')
      with eq have "cs = ps' @ needle @ ss" by simp
      with Cons.IH have "py_in needle cs" by blast
      then show ?thesis by simp
    qed
  qed
qed

lemma py_rstrip_decomp: "\<exists>suf. s = py_rstrip P s @ suf \<and> (\<forall>c\<in>set suf. P c)"
proof -
  have "rev (dropWhile P (rev s)) @ rev (takeWhile P (rev s))
          = rev (takeWhile P (rev s) @ dropWhile P (rev s))"
    by (simp only: rev_append)
  also have "\<dots> = rev (rev s)" by (simp only: takeWhile_dropWhile_id)
  finally have "s = py_rstrip P s @ rev (takeWhile P (rev s))" by (simp add: py_rstrip_def)
  moreover have "\<forall>c\<in>set (rev (takeWhile P (rev s))). P c" by (auto dest: set_takeWhileD)
  ultimately show ?thesis by blast
qed

lemma py_rstrip_last: "py_rstrip P s \<noteq> [] \<Longrightarrow> \<not> P (last (py_rstrip P s))"
  by (simp add: py_rstrip_def last_rev hd_dropWhile)

lemma py_lstrip_decomp: "\<exists>pre. s = pre @ py_lstrip P s \<and> (\<forall>c\<in>set pre. P c)"
proof -
  have "s = takeWhile P s @ py_lstrip P s" by (simp add: py_lstrip_def)
  moreover have "\<forall>c\<in>set (takeWhile P s). P c" by (auto dest: set_takeWhileD)
  ultimately show ?thesis by blast
qed

lemma py_lstrip_hd: "py_lstrip P s \<noteq> [] \<Longrightarrow> \<not> P (hd (py_lstrip P s))"
  by (simp add: py_lstrip_def hd_dropWhile)

lemma py_strip_decomp:
  "\<exists>pre suf. s = pre @ py_strip P s @ suf \<and> (\<forall>c\<in>set pre. P c) \<and> (\<forall>c\<in>set suf. P c)"
proof -
  obtain pre where 1: "s = pre @ py_lstrip P s" "\<forall>c\<in>set pre. P c"
    using py_lstrip_decomp by blast
  obtain suf where 2: "py_lstrip P s = py_strip P s @ suf" "\<forall>c\<in>set suf. P c"
    unfolding py_strip_def using py_rstrip_decomp by blast
  from 1 2 have "s = pre @ py_strip P s @ suf" by simp
  with 1 2 show ?thesis by blast
qed

lemma py_strip_ends:
  assumes "py_strip P s \<noteq> []"
  shows "\<not> P (hd (py_strip P s)) \<and> \<not> P (last (py_strip P s))"
proof -
  let ?l = "py_lstrip P s"
  obtain suf where suf: "?l = py_strip P s @ suf"
    unfolding py_strip_def using py_rstrip_decomp by blast
  with assms have "?l \<noteq> []" by auto
  then have "\<not> P (hd ?l)" by (rule py_lstrip_hd)
  moreover from suf assms have "hd ?l = hd (py_strip P s)" by (metis hd_append2)
  moreover from assms have "\<not> P (last (py_strip P s))"
    unfolding py_strip_def by (rule py_rstrip_last)
  ultimately show ?thesis by simp
qed

lemma trim_decomp:
  "\<exists>w1 q1 q2 w2. raw = w1 @ q1 @ trim raw @ q2 @ w2
      \<and> (\<forall>c\<in>set (w1 @ w2). isspace c)
      \<and> (q1 @ trim raw @ q2 = []
           \<or> (\<not> isspace (hd (q1 @ trim raw @ q2)) \<and> \<not> isspace (last (q1 @ trim raw @ q2))))
      \<and> set (q1 @ q2) \<subseteq> quote_chars"
proof -
  obtain w1 w2 where 1: "raw = w1 @ py_strip isspace raw @ w2"
    "\<forall>c\<in>set w1. isspace c" "\<forall>c\<in>set w2. isspace c"
    using py_strip_decomp by blast
  obtain q1 q2 where 2: "py_strip isspace raw = q1 @ trim raw @ q2"
    "\<forall>c\<in>set q1. c \<in> quote_chars" "\<forall>c\<in>set q2. c \<in> quote_chars"
    unfolding trim_def using py_strip_decomp[of "py_strip isspace raw" "\<lambda>c. c \<in> quote_chars"] by blast
  from 1 2 have "raw = w1 @ q1 @ trim raw @ q2 @ w2" by simp
  moreover from 1 have "\<forall>c\<in>set (w1 @ w2). isspace c" by auto
  moreover from 2 have "set (q1 @ q2) \<subseteq> quote_chars" by auto
  moreover have "q1 @ trim raw @ q2 = []
           \<or> (\<not> isspace (hd (q1 @ trim raw @ q2)) \<and> \<not> isspace (last (q1 @ trim raw @ q2)))"
    using py_strip_ends[of isspace raw] unfolding 2(1) by blast
  ultimately show ?thesis by blast
qed

lemma trim_ends:
  "trim raw \<noteq> [] \<Longrightarrow> hd (trim raw) \<notin> quote_chars \<and> last (trim raw) \<notin> quote_chars"
  unfolding trim_def by (rule py_strip_ends)

section \<open>URL normalisation\<close>

text \<open>
  C8. For every raw string, \<open>normalize_url\<close> trims whitespace and then surrounding quote
  characters (\<open>trim\<close>: what it removes in front and behind is whitespace outside, up to
  the first and the last character that is not whitespace, and quotes inside, and what
  is left neither starts nor ends with a quote); it yields none
  exactly when nothing is left after that trimming; otherwise it strips the trailing
  closing brackets, periods, commas, semicolons, quotes and spaces (what it cuts off is
  made of these characters and what is left does not end in one) and rewrites a leading
  \<open>feed://\<close> to \<open>http://\<close>, keeping the remainder, so that \<open>feed://x.com/rss\<close> becomes
  \<open>http://x.com/rss\<close>.
\<close>

theorem normalize_url_spec:
  "(normalize_url raw = None \<longleftrightarrow> trim raw = []) \<and>
   (\<exists>w1 q1 q2 w2. raw = w1 @ q1 @ trim raw @ q2 @ w2
      \<and> (\<forall>c\<in>set (w1 @ w2). isspace c)
      \<and> (q1 @ trim raw @ q2 = []
           \<or> (\<not> isspace (hd (q1 @ trim raw @ q2)) \<and> \<not> isspace (last (q1 @ trim raw @ q2))))
      \<and> set (q1 @ q2) \<subseteq> quote_chars) \<and>
   (trim raw \<noteq> [] \<longrightarrow> hd (trim raw) \<notin> quote_chars \<and> last (trim raw) \<notin> quote_chars) \<and>
   (\<forall>u. normalize_url raw = Some u \<longrightarrow>
      (\<exists>t suf. trim raw = t @ suf \<and> set suf \<subseteq> trailing_chars
         \<and> (t = [] \<or> last t \<notin> trailing_chars)
         \<and> ((\<exists>rest. t = ''feed://'' @ rest \<and> u = ''http://'' @ rest)
             \<or> (\<not> startswith t ''feed://'' \<and> u = t)))) \<and>
   normalize_url ''feed://x.com/rss'' = Some ''http://x.com/rss''"
proof -
  let ?t = "py_rstrip (\<lambda>c. c \<in> trailing_chars) (trim raw)"
  have none: "normalize_url raw = None \<longleftrightarrow> trim raw = []"
    by (simp add: normalize_url_def Let_def)
  have some: "\<exists>t suf. trim raw = t @ suf \<and> set suf \<subseteq> trailing_chars
         \<and> (t = [] \<or> last t \<notin> trailing_chars)
         \<and> ((\<exists>rest. t = ''feed://'' @ rest \<and> u = ''http://'' @ rest)
             \<or> (\<not> startswith t ''feed://'' \<and> u = t))"
    if u: "normalize_url raw = Some u" for u
  proof -
    obtain suf where suf: "trim raw = ?t @ suf" "\<forall>c\<in>set suf. c \<in> trailing_chars"
      using py_rstrip_decomp[of "trim raw" "\<lambda>c. c \<in> trailing_chars"] by blast
    have last: "?t = [] \<or> last ?t \<notin> trailing_chars"
      using py_rstrip_last[of "\<lambda>c. c \<in> trailing_chars" "trim raw"] by blast
    have rewrite: "(\<exists>rest. ?t = ''feed://'' @ rest \<and> u = ''http://'' @ rest)
             \<or> (\<not> startswith ?t ''feed://'' \<and> u = ?t)"
    proof (cases "startswith ?t ''feed://''")
      case True
      then obtain rest where rest: "?t = ''feed://'' @ rest" by (auto simp: startswith_iff)
      from u True have "u = ''http://'' @ drop (length ''feed://'') ?t"
        by (simp add: normalize_url_def Let_def split: if_splits)
      with rest show ?thesis by simp
    next
      case False
      with u have "u = ?t" by (simp add: normalize_url_def Let_def split: if_splits)
      with False show ?thesis by simp
    qed
    from suf last rewrite show ?thesis by blast
  qed
  have ex: "normalize_url ''feed://x.com/rss'' = Some ''http://x.com/rss''"
    by code_simp
  from none trim_decomp[of raw] trim_ends[of raw] some ex show ?thesis by blast
qed

theorem normalize_url_spec_witness:
  "normalize_url ([CHR 0x09] @ '' \"feed://x.com/rss\")>. '' @ [CHR 0x0A]) = Some ''http://x.com/rss''
   \<and> trim ([CHR 0x09] @ '' \"feed://x.com/rss\")>. '' @ [CHR 0x0A]) = ''feed://x.com/rss\")>.''
   \<and> isspace (CHR 0x09) \<and> isspace (CHR 0x0A)
   \<and> normalize_url ([CHR 0x0A] @ '' \"\" '' @ [CHR 0x09]) = None
   \<and> trim ([CHR 0x0A] @ '' \"\" '' @ [CHR 0x09]) = []"
proof -
  have 1: "normalize_url ([CHR 0x09] @ '' \"feed://x.com/rss\")>. '' @ [CHR 0x0A])
             = Some ''http://x.com/rss''"
    by code_simp
  have 2: "trim ([CHR 0x09] @ '' \"feed://x.com/rss\")>. '' @ [CHR 0x0A])
             = ''feed://x.com/rss\")>.''"
    by code_simp
  have 3: "trim ([CHR 0x0A] @ '' \"\" '' @ [CHR 0x09]) = []"
    by code_simp
  have 4: "normalize_url ([CHR 0x0A] @ '' \"\" '' @ [CHR 0x09]) = None"
    using normalize_url_spec[of "[CHR 0x0A] @ '' \"\" '' @ [CHR 0x09]"] 3 by blast
  have 5: "isspace (CHR 0x09)" "isspace (CHR 0x0A)"
    by (simp_all add: isspace_def)
  from 1 2 3 4 5 show ?thesis by blast
qed

text \<open>
  What is left after the trailing characters are stripped can be empty: the result is
  then the empty string, not none, and each caller drops it with \<open>if url\<close>.
\<close>

lemma normalize_url_only_punctuation: "normalize_url ''.'' = Some []"
  by code_simp

section \<open>URL classification\<close>

lemma lower_feed: "lower ''feed'' = ''feed''"
  by code_simp

lemma py_in_lower: "py_in ''feed'' a \<Longrightarrow> py_in ''feed'' (lower a)"
proof -
  assume "py_in ''feed'' a"
  then obtain ps ss where "a = ps @ ''feed'' @ ss" unfolding py_in_iff by blast
  then have "lower a = lower ps @ lower ''feed'' @ lower ss" by (simp add: lower_def)
  then have "lower a = lower ps @ ''feed'' @ lower ss" by (simp only: lower_feed)
  then show ?thesis unfolding py_in_iff by blast
qed

lemma classify_url_range: "classify_url u src attr_name \<in> {''feed'', ''api'', ''html''}"
  by (simp add: classify_url_def Let_def)

text \<open>
  C9. \<open>classify_url\<close> is a function of its arguments and its rules apply in order, the
  first match winning: a URL whose source is \<open>feeds\<close>, or whose attribute name contains
  \<open>feed\<close> (as it stands or after lowercasing, which is the test the code makes), is
  \<open>feed\<close> whatever its shape; otherwise a URL whose lowercased text contains \<open>/rss\<close>,
  \<open>.rss\<close>, \<open>/atom\<close>, \<open>.atom\<close> or \<open>.xml\<close> is \<open>feed\<close>; otherwise one that contains \<open>/api/\<close>,
  \<open>.json\<close> or \<open>api.\<close> is \<open>api\<close>; otherwise it is \<open>html\<close>. So
  \<open>https://example.com/feed.rss\<close> is \<open>feed\<close>, \<open>https://example.com/api/v2/items.json\<close>
  is \<open>api\<close> and \<open>https://example.com/index.html\<close> is \<open>html\<close>.
\<close>

theorem classify_url_first_match:
  "(src = Some ''feeds'' \<longrightarrow> classify_url u src attr_name = ''feed'') \<and>
   (\<forall>a. attr_name = Some a \<and> (py_in ''feed'' a \<or> py_in ''feed'' (lower a))
        \<longrightarrow> classify_url u src attr_name = ''feed'') \<and>
   (src \<noteq> Some ''feeds'' \<and> (\<forall>a. attr_name = Some a \<longrightarrow> \<not> py_in ''feed'' (lower a)) \<longrightarrow>
      ((\<exists>x\<in>set [''/rss'', ''.rss'', ''/atom'', ''.atom'', ''.xml'']. py_in x (lower u))
          \<longrightarrow> classify_url u src attr_name = ''feed'') \<and>
      (\<not> (\<exists>x\<in>set [''/rss'', ''.rss'', ''/atom'', ''.atom'', ''.xml'']. py_in x (lower u)) \<longrightarrow>
         ((py_in ''/api/'' (lower u) \<or> py_in ''.json'' (lower u) \<or> py_in ''api.'' (lower u))
             \<longrightarrow> classify_url u src attr_name = ''api'') \<and>
         (\<not> py_in ''/api/'' (lower u) \<and> \<not> py_in ''.json'' (lower u) \<and> \<not> py_in ''api.'' (lower u)
             \<longrightarrow> classify_url u src attr_name = ''html''))) \<and>
   classify_url ''https://example.com/feed.rss'' None None = ''feed'' \<and>
   classify_url ''https://example.com/api/v2/items.json'' None None = ''api'' \<and>
   classify_url ''https://example.com/index.html'' None None = ''html''"
proof -
  have r1: "classify_url u src attr_name = ''feed''" if "src = Some ''feeds''"
    using that by (simp add: classify_url_def Let_def)
  have r1': "classify_url u src attr_name = ''feed''"
    if "attr_name = Some a" "py_in ''feed'' a \<or> py_in ''feed'' (lower a)" for a
  proof -
    from that(2) have "py_in ''feed'' (lower a)" using py_in_lower by blast
    moreover from this have "a \<noteq> []" by (auto simp: lower_def)
    ultimately show ?thesis using that(1) by (simp add: classify_url_def Let_def truthy_def)
  qed
  have rest: "classify_url u src attr_name =
      (if list_ex (\<lambda>x. py_in x (lower u)) feed_needles then ''feed''
       else if py_in ''/api/'' (lower u) \<or> py_in ''.json'' (lower u) \<or> py_in ''api.'' (lower u)
            then ''api'' else ''html'')"
    if "src \<noteq> Some ''feeds''" "\<forall>a. attr_name = Some a \<longrightarrow> \<not> py_in ''feed'' (lower a)"
    using that by (cases attr_name) (simp_all add: classify_url_def Let_def truthy_def)
  have needles: "list_ex (\<lambda>x. py_in x (lower u)) feed_needles
      \<longleftrightarrow> (\<exists>x\<in>set [''/rss'', ''.rss'', ''/atom'', ''.atom'', ''.xml'']. py_in x (lower u))"
    by (simp only: list_ex_iff feed_needles_def)
  have e1: "classify_url ''https://example.com/feed.rss'' None None = ''feed''" by code_simp
  have e2: "classify_url ''https://example.com/api/v2/items.json'' None None = ''api''" by code_simp
  have e3: "classify_url ''https://example.com/index.html'' None None = ''html''" by code_simp
  have c3: "src \<noteq> Some ''feeds'' \<and> (\<forall>a. attr_name = Some a \<longrightarrow> \<not> py_in ''feed'' (lower a)) \<longrightarrow>
      ((\<exists>x\<in>set [''/rss'', ''.rss'', ''/atom'', ''.atom'', ''.xml'']. py_in x (lower u))
          \<longrightarrow> classify_url u src attr_name = ''feed'') \<and>
      (\<not> (\<exists>x\<in>set [''/rss'', ''.rss'', ''/atom'', ''.atom'', ''.xml'']. py_in x (lower u)) \<longrightarrow>
         ((py_in ''/api/'' (lower u) \<or> py_in ''.json'' (lower u) \<or> py_in ''api.'' (lower u))
             \<longrightarrow> classify_url u src attr_name = ''api'') \<and>
         (\<not> py_in ''/api/'' (lower u) \<and> \<not> py_in ''.json'' (lower u) \<and> \<not> py_in ''api.'' (lower u)
             \<longrightarrow> classify_url u src attr_name = ''html''))"
    using rest needles by presburger
  from r1 r1' c3 e1 e2 e3 show ?thesis by blast
qed

theorem classify_url_first_match_witness:
  "classify_url ''https://example.com/index.html'' (Some ''feeds'') None = ''feed''
   \<and> py_in ''feed'' (lower ''Feed_URL'')
   \<and> classify_url ''https://example.com/index.html'' (Some ''attr'') (Some ''Feed_URL'') = ''feed''
   \<and> \<not> py_in ''feed'' (lower ''base_url'') \<and> py_in ''.xml'' (lower ''https://example.com/api/News.XML'')
   \<and> classify_url ''https://example.com/api/News.XML'' (Some ''attr'') (Some ''base_url'') = ''feed''
   \<and> py_in ''api.'' (lower ''https://API.example.com/x'')
   \<and> classify_url ''https://API.example.com/x'' (Some ''literal'') None = ''api''
   \<and> classify_url ''https://example.com/x'' (Some ''literal'') None = ''html''"
proof -
  have a: "classify_url ''https://example.com/index.html'' (Some ''feeds'') None = ''feed''"
    using classify_url_first_match[of "Some ''feeds''" "''https://example.com/index.html''" None]
    by blast
  have b: "py_in ''feed'' (lower ''Feed_URL'')" by code_simp
  have c: "classify_url ''https://example.com/index.html'' (Some ''attr'') (Some ''Feed_URL'') = ''feed''"
    using classify_url_first_match[of "Some ''attr''" "''https://example.com/index.html''" "Some ''Feed_URL''"] b
    by blast
  have d: "\<not> py_in ''feed'' (lower ''base_url'')" by code_simp
  have e: "py_in ''.xml'' (lower ''https://example.com/api/News.XML'')" by code_simp
  have f: "classify_url ''https://example.com/api/News.XML'' (Some ''attr'') (Some ''base_url'') = ''feed''"
    by code_simp
  have g: "py_in ''api.'' (lower ''https://API.example.com/x'')" by code_simp
  have h: "classify_url ''https://API.example.com/x'' (Some ''literal'') None = ''api''" by code_simp
  have i: "classify_url ''https://example.com/x'' (Some ''literal'') None = ''html''" by code_simp
  from a b c d e f g h i show ?thesis by blast
qed

section \<open>Endpoint hits of a recipe file\<close>

lemma and_then_Inr:
  "and_then r f = Inr y \<longleftrightarrow> (\<exists>x. r = Inr x \<and> f x = Inr y)"
  by (cases r) (simp_all add: and_then_def)

lemma and_then_Inl: "r = Inl e \<Longrightarrow> and_then r f = Inl e"
  by (simp add: and_then_def)

lemma hit_if_elem:
  "h \<in> set (hit_if u mk) \<Longrightarrow> \<exists>v. u = Some v \<and> v \<noteq> [] \<and> h = mk v"
  by (cases u) (auto simp: hit_if_def truthy_def split: if_splits)

lemma hit_if_ok:
  assumes mem: "h \<in> set (hit_if n mk)"
    and norm: "\<And>v. n = Some v \<Longrightarrow> \<exists>s. normalize_url s = Some v"
    and mk_url: "\<And>u. url (mk u) = u"
    and mk_type: "\<And>u. \<exists>src a. url_type (mk u) = classify_url u src a"
  shows "hit_wellformed h"
proof -
  from mem obtain v where v: "n = Some v" "v \<noteq> []" "h = mk v"
    by (blast dest: hit_if_elem)
  from mk_type obtain src a where "url_type (mk v) = classify_url v src a" by blast
  then have "url_type (mk v) \<in> {''feed'', ''api'', ''html''}"
    using classify_url_range[of v src a] by simp
  moreover from norm v(1) obtain s where "normalize_url s = Some v" by blast
  ultimately show ?thesis using v mk_url[of v] by (auto simp: hit_wellformed_def)
qed

lemma literal_hits_ok:
  assumes "h \<in> set (literal_hits raw)"
  shows "hit_wellformed h"
proof -
  from assms obtain found mk where "h \<in> set (hit_if (normalize_url found) mk)"
    and "\<And>u. url (mk u) = u" and "\<And>u. url_type (mk u) = classify_url u (Some ''literal'') None"
    by (fastforce simp: literal_hits_def)
  then show ?thesis by (blast intro: hit_if_ok)
qed

lemma bare_hit_ok: "h \<in> set (bare_hit entry s) \<Longrightarrow> hit_wellformed h"
  unfolding bare_hit_def by (erule hit_if_ok) auto

lemma titled_hit_shape:
  assumes "titled_hit B t u = Inr hs"
  shows "hs = [] \<or> (\<exists>s v ftitle. normalize_url s = Some v \<and> v \<noteq> []
           \<and> hs = [\<lparr>url = v, url_type = classify_url v (Some ''feeds'') None, source = ''feeds'',
                     hit_context = None, feed_title = ftitle, raw_url = Some (VStr s),
                     confidence = 0.98\<rparr>])"
proof (cases "decoded B u")
  case (VStr s)
  show ?thesis
  proof (cases "normalize_url s")
    case None
    with VStr assms show ?thesis by (simp add: titled_hit_def Let_def truthy_def)
  next
    case (Some v)
    show ?thesis
    proof (cases "v = []")
      case True
      with VStr Some assms show ?thesis by (simp add: titled_hit_def Let_def truthy_def)
    next
      case False
      with VStr Some assms obtain ftitle where
        "hs = [\<lparr>url = v, url_type = classify_url v (Some ''feeds'') None, source = ''feeds'',
                     hit_context = None, feed_title = ftitle, raw_url = Some (VStr s),
                     confidence = 0.98\<rparr>]"
        by (auto simp: titled_hit_def Let_def truthy_def and_then_Inr)
      with Some False show ?thesis by blast
    qed
  qed
qed (use assms in \<open>simp_all add: titled_hit_def Let_def\<close>)

lemma titled_hit_ok:
  assumes "titled_hit B t u = Inr hs" and "h \<in> set hs"
  shows "hit_wellformed h"
proof -
  from titled_hit_shape[OF assms(1)] assms(2) obtain s v ftitle where
    "normalize_url s = Some v" "v \<noteq> []"
    "h = \<lparr>url = v, url_type = classify_url v (Some ''feeds'') None, source = ''feeds'',
          hit_context = None, feed_title = ftitle, raw_url = Some (VStr s),
          confidence = 0.98\<rparr>"
    by auto
  then show ?thesis
    using classify_url_range[of v "Some ''feeds''" None] by (auto simp: hit_wellformed_def)
qed

lemma entry_hits_ok: "entry_hits B entry = Inr hs \<Longrightarrow> h \<in> set hs \<Longrightarrow> hit_wellformed h"
  by (induction B entry rule: entry_hits.induct) (auto intro: bare_hit_ok titled_hit_ok)

lemma gather_elem:
  "gather f xs = Inr hs \<Longrightarrow> h \<in> set hs \<Longrightarrow> \<exists>x ys. f x = Inr ys \<and> h \<in> set ys"
proof (induction xs arbitrary: hs)
  case Nil
  then show ?case by simp
next
  case (Cons x xs)
  from Cons.prems(1) obtain ys rest where
    parts: "f x = Inr ys" "gather f xs = Inr rest" "hs = ys @ rest"
    by (auto split: sum.splits)
  with Cons.prems(2) consider "h \<in> set ys" | "h \<in> set rest" by auto
  then show ?case
  proof cases
    case 1
    with parts(1) show ?thesis by blast
  next
    case 2
    with Cons.IH parts(2) show ?thesis by blast
  qed
qed

lemma feeds_to_endpoints_ok:
  assumes "feeds_to_endpoints B feeds = Inr hs" and "h \<in> set hs"
  shows "hit_wellformed h"
proof -
  from assms(1) have "hs = [] \<or> (\<exists>entries. gather (entry_hits B) entries = Inr hs)"
    by (cases feeds) (auto simp: feeds_to_endpoints_def)
  with assms(2) obtain entries where "gather (entry_hits B) entries = Inr hs" by auto
  with assms(2) obtain entry ys where "entry_hits B entry = Inr ys" "h \<in> set ys"
    by (blast dest: gather_elem)
  then show ?thesis by (rule entry_hits_ok)
qed

lemma attr_endpoint_ok: "h \<in> set (attr_endpoint name s r) \<Longrightarrow> hit_wellformed h"
  unfolding attr_endpoint_def by (erule hit_if_ok) auto

lemma attr_hit_shape:
  "attr_hit B name v = [] \<or> (\<exists>s r. attr_hit B name v = attr_endpoint name s r)"
  by (cases v) (auto simp: attr_hit_def)

lemma attr_hit_ok:
  assumes "h \<in> set (attr_hit B name v)"
  shows "hit_wellformed h"
proof -
  from assms have "attr_hit B name v \<noteq> []" by auto
  with attr_hit_shape[of B name v] obtain s r where
    "attr_hit B name v = attr_endpoint name s r" by blast
  with assms show ?thesis by (auto intro: attr_endpoint_ok)
qed

lemma attr_url_hits_ok: "h \<in> set (attr_url_hits B assigns) \<Longrightarrow> hit_wellformed h"
  by (auto simp: attr_url_hits_def intro: attr_hit_ok)

lemma parse_recipe_file_hits:
  assumes "parse_recipe_file B file_text = Inr (meta, hits, err)"
  shows "\<exists>raw. html_unescape B file_text = Inr raw \<and>
          (hits = literal_hits raw
           \<or> (\<exists>assigns fs. feeds_to_endpoints B (get assigns ''feeds'') = Inr fs
                 \<and> hits = literal_hits raw @ fs @ attr_url_hits B assigns))"
proof -
  from assms obtain raw where raw: "html_unescape B file_text = Inr raw"
    and rest: "(let url_hits = literal_hits raw
       in case ast_parse B raw of
            SyntaxError exc \<Rightarrow> Inr (null_metadata, url_hits, Some (''SyntaxError: '' @ exc))
          | ParseRaises e \<Rightarrow> Inl e
          | Parsed body \<Rightarrow>
              and_then (collect_module_constants B body) (\<lambda>constants.
                let class_node = find_recipe_class body
                in and_then (case class_node of
                               Some node \<Rightarrow> extract_class_assignments B node constants
                             | None \<Rightarrow> Inr [])
                     (\<lambda>assigns.
                and_then (as_str B (get assigns ''title'')) (\<lambda>title_s.
                and_then (as_str B (get assigns ''__author__'')) (\<lambda>author_s.
                and_then (as_str B (get assigns ''description'')) (\<lambda>description_s.
                and_then (as_str B (get assigns ''language'')) (\<lambda>language_s.
                and_then (as_str B (get assigns ''publication_type'')) (\<lambda>publication_type_s.
                and_then (as_str B (get assigns ''needs_subscription'')) (\<lambda>needs_subscription_s.
                and_then (feeds_to_endpoints B (get assigns ''feeds'')) (\<lambda>feed_hits.
                  Inr (\<lparr>recipe_uid = [], title = title_s, author = author_s,
                        description = description_s, language = language_s,
                        publication_type = publication_type_s,
                        needs_subscription = needs_subscription_s,
                        class_name = (case class_node of
                                        Some (ClassDef cname bases body) \<Rightarrow> Some cname
                                      | _ \<Rightarrow> None)\<rparr>,
                       url_hits @ feed_hits @ attr_url_hits B assigns,
                       None))))))))))) = Inr (meta, hits, err)"
    unfolding parse_recipe_file_def and_then_Inr by blast
  from rest have "hits = literal_hits raw
           \<or> (\<exists>assigns fs. feeds_to_endpoints B (get assigns ''feeds'') = Inr fs
                 \<and> hits = literal_hits raw @ fs @ attr_url_hits B assigns)"
    by (cases "ast_parse B raw") (auto simp: Let_def and_then_Inr)
  with raw show ?thesis by blast
qed

text \<open>
  C10. Every \<open>EndpointHit\<close> that \<open>parse_recipe_file\<close> returns, whether it comes from the
  literal scanner, the feeds list or a url-named attribute, has a non-empty \<open>url\<close> that is
  a result of \<open>normalize_url\<close>, and a \<open>url_type\<close> that is one of \<open>feed\<close>, \<open>api\<close> and \<open>html\<close>:
  a URL that normalizes to none or to the empty string gives no hit.
\<close>

theorem parse_recipe_file_hits_wellformed:
  assumes "parse_recipe_file B file_text = Inr (meta, hits, err)" and "h \<in> set hits"
  shows "url h \<noteq> [] \<and> url_type h \<in> {''feed'', ''api'', ''html''}
         \<and> (\<exists>s. normalize_url s = Some (url h))"
proof -
  from assms(1) obtain raw where
    "hits = literal_hits raw
       \<or> (\<exists>assigns fs. feeds_to_endpoints B (get assigns ''feeds'') = Inr fs
             \<and> hits = literal_hits raw @ fs @ attr_url_hits B assigns)"
    using parse_recipe_file_hits by blast
  with assms(2) consider "h \<in> set (literal_hits raw)"
    | assigns fs where "feeds_to_endpoints B (get assigns ''feeds'') = Inr fs" "h \<in> set fs"
    | assigns where "h \<in> set (attr_url_hits B assigns)"
    by auto
  then have "hit_wellformed h"
  proof cases
    case 1
    then show ?thesis by (rule literal_hits_ok)
  next
    case 2
    then show ?thesis by (rule feeds_to_endpoints_ok)
  next
    case 3
    then show ?thesis by (rule attr_url_hits_ok)
  qed
  then show ?thesis by (simp add: hit_wellformed_def)
qed

theorem parse_recipe_file_hits_wellformed_witness:
  "parse_recipe_file example_builtins example_source =
     Inr (\<lparr>recipe_uid = [], title = Some ''Example'', author = None, description = None,
           language = None, publication_type = None, needs_subscription = None,
           class_name = Some ''R''\<rparr>,
          [\<lparr>url = ''http://ex.com/tech.rss'', url_type = ''feed'', source = ''literal'',
             hit_context = None, feed_title = None,
             raw_url = Some (VStr ''http://ex.com/tech.rss''), confidence = 0.6\<rparr>,
           \<lparr>url = ''http://ex.com/tech.rss'', url_type = ''feed'', source = ''feeds'',
             hit_context = None, feed_title = Some ''Tech'',
             raw_url = Some (VStr ''http://ex.com/tech.rss''), confidence = 0.98\<rparr>],
          None)
   \<and> url_type \<lparr>url = ''http://ex.com/tech.rss'', url_type = ''feed'', source = ''feeds'',
             hit_context = None, feed_title = Some ''Tech'',
             raw_url = Some (VStr ''http://ex.com/tech.rss''), confidence = 0.98\<rparr>
        \<in> {''feed'', ''api'', ''html''}
   \<and> normalize_url ''http://ex.com/tech.rss'' = Some ''http://ex.com/tech.rss''"
proof -
  let ?m = "\<lparr>recipe_uid = [], title = Some ''Example'', author = None, description = None,
           language = None, publication_type = None, needs_subscription = None,
           class_name = Some ''R''\<rparr>"
  let ?h1 = "\<lparr>url = ''http://ex.com/tech.rss'', url_type = ''feed'', source = ''literal'',
             hit_context = None, feed_title = None,
             raw_url = Some (VStr ''http://ex.com/tech.rss''), confidence = 0.6\<rparr>"
  let ?h2 = "\<lparr>url = ''http://ex.com/tech.rss'', url_type = ''feed'', source = ''feeds'',
             hit_context = None, feed_title = Some ''Tech'',
             raw_url = Some (VStr ''http://ex.com/tech.rss''), confidence = 0.98\<rparr>"
  have run: "parse_recipe_file example_builtins example_source = Inr (?m, [?h1, ?h2], None)"
    by code_simp
  have mem: "?h2 \<in> set [?h1, ?h2]" by simp
  have norm: "normalize_url ''http://ex.com/tech.rss'' = Some ''http://ex.com/tech.rss''"
    by code_simp
  from parse_recipe_file_hits_wellformed[OF run mem] run norm show ?thesis by blast
qed

section \<open>Documents that do not parse\<close>

text \<open>
  When \<open>html.unescape\<close> returns and \<open>ast.parse\<close> raises \<open>SyntaxError\<close>, the metadata
  fields are all null, the error is the message \<open>SyntaxError: \<close> followed by the parser's
  own, and the hits are those of the literal scanner on the entity-decoded text.
\<close>

lemma parse_recipe_file_syntax_error:
  assumes "html_unescape B file_text = Inr raw" and "ast_parse B raw = SyntaxError exc"
  shows "parse_recipe_file B file_text =
           Inr (null_metadata, literal_hits raw, Some (''SyntaxError: '' @ exc))
         \<and> title null_metadata = None \<and> author null_metadata = None
         \<and> description null_metadata = None \<and> language null_metadata = None
         \<and> publication_type null_metadata = None \<and> needs_subscription null_metadata = None
         \<and> class_name null_metadata = None"
  using assms by (simp add: parse_recipe_file_def and_then_def Let_def null_metadata_def)

lemma parse_recipe_file_syntax_error_example:
  "parse_recipe_file example_builtins ''see <http://ex.com/a.xml>. def ('' =
     Inr (null_metadata,
          [\<lparr>url = ''http://ex.com/a.xml'', url_type = ''feed'', source = ''literal'',
             hit_context = None, feed_title = None,
             raw_url = Some (VStr ''http://ex.com/a.xml''), confidence = 0.6\<rparr>],
          Some ''SyntaxError: invalid syntax (<unknown>, line 1)'')"
proof -
  have ok: "html_unescape example_builtins ''see <http://ex.com/a.xml>. def (''
              = Inr ''see <http://ex.com/a.xml>. def (''"
    by code_simp
  have bad: "ast_parse example_builtins ''see <http://ex.com/a.xml>. def (''
             = SyntaxError ''invalid syntax (<unknown>, line 1)''"
    by code_simp
  have hits: "literal_hits ''see <http://ex.com/a.xml>. def (''
     = [\<lparr>url = ''http://ex.com/a.xml'', url_type = ''feed'', source = ''literal'',
             hit_context = None, feed_title = None,
             raw_url = Some (VStr ''http://ex.com/a.xml''), confidence = 0.6\<rparr>]"
    by code_simp
  from parse_recipe_file_syntax_error[OF ok bad] hits show ?thesis by simp
qed

text \<open>
  Every other failure is passed on: an exception of \<open>html.unescape\<close>, which is called
  before the \<open>try\<close>, and an exception of \<open>ast.parse\<close> that is not a \<open>SyntaxError\<close>.
\<close>

lemma parse_recipe_file_unescape_propagates:
  "html_unescape B file_text = Inl e \<Longrightarrow> parse_recipe_file B file_text = Inl e"
  by (simp add: parse_recipe_file_def and_then_def)

lemma parse_recipe_file_parser_propagates:
  "html_unescape B file_text = Inr raw \<Longrightarrow> ast_parse B raw = ParseRaises e
     \<Longrightarrow> parse_recipe_file B file_text = Inl e"
  by (simp add: parse_recipe_file_def and_then_def)

lemma long_charref_digits:
  assumes "4300 < n" and "is_digit d"
  shows "long_charref (''&#'' @ replicate n d @ '';'')"
proof -
  have "takeWhile is_digit (replicate n d @ '';'') = replicate n d @ takeWhile is_digit '';''"
    by (rule takeWhile_append2) (use assms(2) in auto)
  then have "length (takeWhile is_digit (replicate n d @ '';''))
               = n + length (takeWhile is_digit '';'')"
    by (simp only: length_append length_replicate)
  with assms(1) have "4300 < length (takeWhile is_digit (replicate n d @ '';''))" by linarith
  then show ?thesis by simp
qed

text \<open>
  C5. The claim is that \<open>parse_recipe_file\<close> returns, with null metadata, a captured
  message and the literal hits, on every document whose text does not parse. The document
  that consists of the character reference \<open>&#\<close>, 4301 digits and \<open>;\<close> is no Python
  source, but the parser is never reached: \<open>html.unescape\<close> raises \<open>ValueError\<close> on it,
  before the \<open>try\<close> that catches \<open>SyntaxError\<close>, and \<open>parse_recipe_file\<close> raises.
\<close>

theorem parse_recipe_file_long_reference_raises:
  "parse_recipe_file example_builtins (''&#'' @ replicate 4301 (CHR ''1'') @ '';'')
     = Inl ValueError"
proof -
  have "is_digit (CHR ''1'')" by (simp add: is_digit_def)
  then have "long_charref (''&#'' @ replicate 4301 (CHR ''1'') @ '';'')"
    by (intro long_charref_digits) simp_all
  then have "html_unescape example_builtins (''&#'' @ replicate 4301 (CHR ''1'') @ '';'')
               = Inl ValueError"
    by (simp add: example_builtins_def)
  then show ?thesis by (rule parse_recipe_file_unescape_propagates)
qed

section \<open>The constant folder\<close>

text \<open>
  Where the folder raises, the exception is the \<open>TypeError\<close> of an addition or what
  \<open>str\<close> raises on a part of an interpolated string; and what an addition returns
  follows from what its two operands fold to.
\<close>

lemma collect_Inl: "collect rs = Inl e \<Longrightarrow> Inl e \<in> set rs"
  by (induction rs rule: collect.induct) (auto split: sum.splits)

lemma str_of_Inl: "str_of B v = Inl e \<Longrightarrow> py_str B v = Inl e"
  by (cases v) (simp_all add: str_of_def)

lemma join_parts_Inl:
  "join_parts B rs parts = Inl e \<Longrightarrow> Inl e \<in> set rs \<or> (\<exists>v. py_str B v = Inl e)"
  by (induction B rs parts rule: join_parts.induct)
    (auto split: if_splits sum.splits dest: str_of_Inl)

lemma py_add_Inl: "py_add a b = Inl e \<Longrightarrow> e = TypeError"
  by (cases "(a, b)" rule: py_add.cases) auto

lemma eval_node_raises_only:
  "eval_node B node constants = Inl e \<Longrightarrow> e = TypeError \<or> (\<exists>v. py_str B v = Inl e)"
proof (induction B node constants rule: eval_node.induct)
  case (3 B elts constants)
  then show ?case by (auto split: sum.splits if_splits dest!: collect_Inl)
next
  case (4 B elts constants)
  then show ?case by (auto split: sum.splits if_splits dest!: collect_Inl)
next
  case (5 B l op r constants)
  then show ?case by (auto split: sum.splits if_splits dest: py_add_Inl)
next
  case (6 B vals constants)
  from 6(2) have "Inl e \<in> set (map (\<lambda>v. eval_node B v constants) vals)
                    \<or> (\<exists>v. py_str B v = Inl e)"
    by (auto dest: join_parts_Inl)
  with 6(1) show ?case by auto
next
  case (8 B func args kws constants)
  show ?case
  proof (cases func)
    case (Attribute base attr)
    with 8 show ?thesis
      by (auto simp: Let_def split: sum.splits if_splits pyval.splits option.splits
               dest!: collect_Inl)
  qed (use 8 in auto)
qed auto

lemma binop_add_folds:
  assumes "eval_node B l constants = Inr x" and "eval_node B r constants = Inr y"
  shows "eval_node B (BinOp l Add r) constants =
           (case (x, y) of
              (VStr a, VStr b) \<Rightarrow> Inr (VStr (a @ b))
            | (VBytes a, VBytes b) \<Rightarrow> Inr (VBytes (a @ b))
            | (VList a, VList b) \<Rightarrow> Inr (VList (a @ b))
            | (VStr a, VBytes b) \<Rightarrow> Inl TypeError
            | (VBytes a, VStr b) \<Rightarrow> Inl TypeError
            | _ \<Rightarrow> Inr VNone)"
  using assms by (cases x; cases y) (simp_all add: is_str_or_bytes_def is_list_def)

text \<open>
  C1. The claim is that \<open>_eval_node\<close> never raises, an addition of operands of mismatched
  types included. On the addition \<open>"a" + b"b"\<close> both operands pass the test
  \<open>isinstance(..., (str, bytes))\<close>, so the folder evaluates \<open>left + right\<close> on a \<open>str\<close> and
  a \<open>bytes\<close>, and the \<open>TypeError\<close> of that addition escapes, in every environment.
\<close>

theorem eval_node_str_plus_bytes_raises:
  "eval_node B (BinOp (Constant (VStr ''a'')) Add (Constant (VBytes ''b''))) constants
     = Inl TypeError"
  by (simp add: is_str_or_bytes_def)

text \<open>
  Nothing between the folder and \<open>parse_recipe_file\<close> catches the exception: a document
  whose first statement is \<open>x = "a" + b"b"\<close> makes \<open>parse_recipe_file\<close> raise.
\<close>

lemma parse_recipe_file_propagates_TypeError:
  assumes "html_unescape B file_text = Inr raw"
    and "ast_parse B raw =
           Parsed (Assign [Name ''x''] (BinOp (Constant (VStr ''a'')) Add (Constant (VBytes ''b'')))
                   # rest)"
  shows "parse_recipe_file B file_text = Inl TypeError"
  using assms
  by (simp add: parse_recipe_file_def and_then_def Let_def collect_module_constants_def
                module_step_def is_str_or_bytes_def)

text \<open>
  C2. The claim is that an addition folds to Unknown whenever its operands are not two
  strings, two byte-strings or two lists, a string with a byte-string included. On
  \<open>b"a" + "b"\<close> the folder does not return Unknown (\<open>None\<close>): it raises \<open>TypeError\<close>.
\<close>

theorem eval_node_bytes_plus_str_not_unknown:
  "eval_node B (BinOp (Constant (VBytes ''a'')) Add (Constant (VStr ''b''))) constants
     = Inl TypeError
   \<and> eval_node B (BinOp (Constant (VBytes ''a'')) Add (Constant (VStr ''b''))) constants
     \<noteq> Inr VNone"
  by (simp add: is_str_or_bytes_def)

section \<open>Augmented assignment in the class body\<close>

text \<open>
  C7, as stated, fails on tuples: with the tuple \<open>(1,)\<close> stored under \<open>x\<close>, the statement
  \<open>x += (2,)\<close>, whose increment folds to a tuple, is ignored.
\<close>

theorem augassign_tuples_ignored:
  "get [(''x'', VTuple [VInt 1])] ''x'' = VTuple [VInt 1]
   \<and> eval_node example_builtins (Tuple [Constant (VInt 2)])
         (dict_union [] [(''x'', VTuple [VInt 1])]) = Inr (VTuple [VInt 2])
   \<and> class_step example_builtins [] (AugAssign (Name ''x'') Add (Tuple [Constant (VInt 2)]))
         [(''x'', VTuple [VInt 1])] = Inr [(''x'', VTuple [VInt 1])]"
  by (simp add: class_step_def get_def dict_union_def)

text \<open>
  C7, amended. An augmented (\<open>+=\<close>) assignment is applied exactly when both the currently
  stored value and the folded increment are lists, in which case their concatenation is
  stored; in every other case (a tuple on either side, no value stored, a target that is
  not a name) the statement is ignored and the attributes are unchanged. The stored value
  of a name is its class attribute if one is set and its module constant otherwise. Two
  cases are left out, neither promised nor denied: an increment whose fold raises, and a
  name that holds a list only as a module constant.
\<close>

theorem augassign_lists_only:
  "((\<forall>ident. target \<noteq> Name ident) \<longrightarrow>
      class_step B constants (AugAssign target Add rhs) assigns = Inr assigns)
   \<and> (\<forall>ident extra.
        target = Name ident
        \<and> eval_node B rhs (dict_union constants assigns) = Inr extra
        \<and> (map_of assigns ident = None \<longrightarrow> \<not> is_list (get constants ident))
        \<longrightarrow>
        (\<forall>cur ext.
           (case map_of assigns ident of Some v \<Rightarrow> v | None \<Rightarrow> get constants ident) = VList cur
           \<and> extra = VList ext \<longrightarrow>
           class_step B constants (AugAssign target Add rhs) assigns
             = Inr (AList.update ident (VList (cur @ ext)) assigns))
        \<and> (\<not> (is_list (case map_of assigns ident of Some v \<Rightarrow> v | None \<Rightarrow> get constants ident)
               \<and> is_list extra) \<longrightarrow>
           class_step B constants (AugAssign target Add rhs) assigns = Inr assigns))"
proof (intro conjI allI impI)
  assume "\<forall>ident. target \<noteq> Name ident"
  then show "class_step B constants (AugAssign target Add rhs) assigns = Inr assigns"
    by (cases target) (simp_all add: class_step_def)
next
  fix ident extra cur ext
  assume h: "target = Name ident
        \<and> eval_node B rhs (dict_union constants assigns) = Inr extra
        \<and> (map_of assigns ident = None \<longrightarrow> \<not> is_list (get constants ident))"
    and l: "(case map_of assigns ident of Some v \<Rightarrow> v | None \<Rightarrow> get constants ident) = VList cur
           \<and> extra = VList ext"
  from h l have "get assigns ident = VList cur"
    by (cases "map_of assigns ident") (auto simp: get_def is_list_def)
  with h l show "class_step B constants (AugAssign target Add rhs) assigns
             = Inr (AList.update ident (VList (cur @ ext)) assigns)"
    by (simp add: class_step_def Let_def)
next
  fix ident extra
  assume h: "target = Name ident
        \<and> eval_node B rhs (dict_union constants assigns) = Inr extra
        \<and> (map_of assigns ident = None \<longrightarrow> \<not> is_list (get constants ident))"
    and n: "\<not> (is_list (case map_of assigns ident of Some v \<Rightarrow> v | None \<Rightarrow> get constants ident)
               \<and> is_list extra)"
  from h n have "\<not> (is_list (get assigns ident) \<and> is_list extra)"
    by (cases "map_of assigns ident") (auto simp: get_def is_list_def)
  with h show "class_step B constants (AugAssign target Add rhs) assigns = Inr assigns"
    by (cases "get assigns ident"; cases extra) (simp_all add: class_step_def Let_def is_list_def)
qed

theorem augassign_lists_only_witness:
  "eval_node example_builtins (ListNode [Constant (VInt 2)])
         (dict_union [(''y'', VInt 0)] [(''x'', VList [VInt 1])]) = Inr (VList [VInt 2])
   \<and> map_of [(''x'', VList [VInt 1])] ''x'' = Some (VList [VInt 1])
   \<and> class_step example_builtins [(''y'', VInt 0)]
         (AugAssign (Name ''x'') Add (ListNode [Constant (VInt 2)])) [(''x'', VList [VInt 1])]
       = Inr [(''x'', VList [VInt 1, VInt 2])]
   \<and> map_of [(''x'', VList [VInt 1])] ''y'' = None
   \<and> \<not> is_list (get [(''y'', VInt 0)] ''y'')
   \<and> class_step example_builtins [(''y'', VInt 0)]
         (AugAssign (Name ''y'') Add (ListNode [Constant (VInt 2)])) [(''x'', VList [VInt 1])]
       = Inr [(''x'', VList [VInt 1])]
   \<and> class_step example_builtins [(''y'', VInt 0)]
         (AugAssign (Attribute (Name ''self'') ''x'') Add (ListNode [Constant (VInt 2)]))
         [(''x'', VList [VInt 1])]
       = Inr [(''x'', VList [VInt 1])]"
proof -
  let ?c = "[(''y'', VInt 0)]" and ?a = "[(''x'', VList [VInt 1])]"
  let ?rhs = "ListNode [Constant (VInt 2)]"
  have ev: "eval_node example_builtins ?rhs (dict_union ?c ?a) = Inr (VList [VInt 2])"
    by simp
  have mx: "map_of ?a ''x'' = Some (VList [VInt 1])" by simp
  have my: "map_of ?a ''y'' = None" by simp
  have ny: "\<not> is_list (get ?c ''y'')" by (simp add: get_def is_list_def)
  note inst = augassign_lists_only[of _ example_builtins "?c" "?rhs" "?a"]
  from inst[of "Name ''x''"] ev mx
  have a: "class_step example_builtins ?c (AugAssign (Name ''x'') Add ?rhs) ?a
             = Inr (AList.update ''x'' (VList ([VInt 1] @ [VInt 2])) ?a)"
    by simp
  from inst[of "Name ''y''"] ev my ny
  have b: "class_step example_builtins ?c (AugAssign (Name ''y'') Add ?rhs) ?a = Inr ?a"
    by (simp add: get_def is_list_def)
  from inst[of "Attribute (Name ''self'') ''x''"]
  have c: "class_step example_builtins ?c
             (AugAssign (Attribute (Name ''self'') ''x'') Add ?rhs) ?a = Inr ?a"
    by simp
  from a have a': "class_step example_builtins ?c (AugAssign (Name ''x'') Add ?rhs) ?a
             = Inr [(''x'', VList [VInt 1, VInt 2])]"
    by simp
  from ev mx a' my ny b c show ?thesis by blast
qed

section \<open>The feed parser\<close>

text \<open>
  C6, as stated, fails on a payload that is not well-formed: \<open>parse_feed\<close> has no handler
  around \<open>ET.fromstring\<close>, so the parser's error is the outcome of \<open>parse_feed\<close>.
\<close>

theorem parse_feed_malformed_raises:
  "example_fromstring ''<rss><channel>'' = Inl ParseError
   \<and> parse_feed example_fromstring ''<rss><channel>'' = Inl ParseError"
  by (simp add: parse_feed_def example_fromstring_def)

text \<open>
  C6, amended. For every byte payload, \<open>parse_feed\<close> raises exactly what the XML parser
  raises on it, and nothing else: a payload that parses gives a result, and this result
  is the empty title and the empty entry list when the root element is neither \<open>rss\<close> nor
  \<open>feed\<close> (or is an \<open>rss\<close> without a channel).
\<close>

theorem parse_feed_raises_only_with_parser:
  "(\<forall>e. fromstring xml_bytes = Inl e \<longrightarrow> parse_feed fromstring xml_bytes = Inl e)
   \<and> (\<forall>r. fromstring xml_bytes = Inr r \<longrightarrow>
          parse_feed fromstring xml_bytes = Inr (parse_root r)
          \<and> (strip_ns (tag r) \<noteq> ''rss'' \<and> strip_ns (tag r) \<noteq> ''feed''
               \<longrightarrow> parse_feed fromstring xml_bytes = Inr (None, []))
          \<and> (strip_ns (tag r) = ''rss'' \<and> find_child (children r) ''channel'' = None
               \<longrightarrow> parse_feed fromstring xml_bytes = Inr (None, [])))"
  by (auto simp: parse_feed_def parse_root_def Let_def)

theorem parse_feed_raises_only_with_parser_witness:
  "example_fromstring ''<html/>'' = Inr (Element ''html'' [] None [])
   \<and> strip_ns (tag (Element ''html'' [] None [])) \<noteq> ''rss''
   \<and> strip_ns (tag (Element ''html'' [] None [])) \<noteq> ''feed''
   \<and> parse_feed example_fromstring ''<html/>'' = Inr (None, [])
   \<and> example_fromstring ''<rss'' = Inl ParseError
   \<and> parse_feed example_fromstring ''<rss'' = Inl ParseError"
proof -
  have p: "example_fromstring ''<html/>'' = Inr (Element ''html'' [] None [])"
    by (simp add: example_fromstring_def)
  have t: "strip_ns (tag (Element ''html'' [] None [])) \<noteq> ''rss''"
     "strip_ns (tag (Element ''html'' [] None [])) \<noteq> ''feed''"
    by (simp_all add: strip_ns_def)
  have q: "example_fromstring ''<rss'' = Inl ParseError"
    by (simp add: example_fromstring_def)
  from parse_feed_raises_only_with_parser[of example_fromstring "''<html/>''"] p t
  have a: "parse_feed example_fromstring ''<html/>'' = Inr (None, [])" by blast
  from parse_feed_raises_only_with_parser[of example_fromstring "''<rss''"] q
  have b: "parse_feed example_fromstring ''<rss'' = Inl ParseError" by blast
  from p t a q b show ?thesis by blast
qed

section \<open>The link table\<close>

text \<open>
  C3. The claim is that linking the same composite key twice leaves one row, also when
  \<open>context\<close> or \<open>feed_title\<close> is null. With both null, as in every hit of the literal
  scanner, the second insert meets no conflict in the \<open>UNIQUE\<close> index and adds a second
  row, with a \<open>first_seen\<close> of its own.
\<close>

theorem link_twice_null_context_two_rows:
  "link_recipe_endpoint
     (link_recipe_endpoint [] ''2026-01-01T00:00:00+00:00'' 1 1 ''literal'' None None
        (Some ''http://x.com/a'') 0.6)
     ''2026-01-02T00:00:00+00:00'' 1 1 ''literal'' None None (Some ''http://x.com/a'') 0.6
   = [\<lparr>recipe_id = 1, endpoint_id = 1, link_context = None, link_feed_title = None,
       link_source = Some ''literal'', link_confidence = 0.6,
       link_raw_url = Some ''http://x.com/a'', first_seen = ''2026-01-01T00:00:00+00:00'',
       last_seen = ''2026-01-01T00:00:00+00:00''\<rparr>,
      \<lparr>recipe_id = 1, endpoint_id = 1, link_context = None, link_feed_title = None,
       link_source = Some ''literal'', link_confidence = 0.6,
       link_raw_url = Some ''http://x.com/a'', first_seen = ''2026-01-02T00:00:00+00:00'',
       last_seen = ''2026-01-02T00:00:00+00:00''\<rparr>]"
  by (simp add: link_recipe_endpoint_def link_conflict_def unique_eq_def)

text \<open>
  With \<open>context\<close> and \<open>feed_title\<close> both set, the second insert of a key only moves
  \<open>last_seen\<close>: confidence, raw form and \<open>first_seen\<close> stay as first written.
\<close>

lemma link_twice_without_null:
  assumes fresh: "\<not> list_ex (link_conflict
            \<lparr>recipe_id = rid, endpoint_id = eid, link_context = Some ctx,
             link_feed_title = Some ftitle, link_source = Some src, link_confidence = conf,
             link_raw_url = raw, first_seen = ts, last_seen = ts\<rparr>) table"
  shows "link_recipe_endpoint
           (link_recipe_endpoint table ts rid eid src (Some ctx) (Some ftitle) raw conf)
           ts' rid eid src (Some ctx) (Some ftitle) raw' conf'
         = table @ [\<lparr>recipe_id = rid, endpoint_id = eid, link_context = Some ctx,
             link_feed_title = Some ftitle, link_source = Some src, link_confidence = conf,
             link_raw_url = raw, first_seen = ts, last_seen = ts'\<rparr>]"
proof -
  let ?new = "\<lambda>t r c. \<lparr>recipe_id = rid, endpoint_id = eid, link_context = Some ctx,
             link_feed_title = Some ftitle, link_source = Some src, link_confidence = c,
             link_raw_url = r, first_seen = t, last_seen = t\<rparr>"
  have same: "link_conflict (?new ts' raw' conf') old = link_conflict (?new ts raw conf) old" for old
    by (simp add: link_conflict_def)
  have first: "link_recipe_endpoint table ts rid eid src (Some ctx) (Some ftitle) raw conf
                 = table @ [?new ts raw conf]"
    using fresh by (simp add: link_recipe_endpoint_def)
  have hit: "link_conflict (?new ts' raw' conf') (?new ts raw conf)"
    by (simp add: link_conflict_def unique_eq_def)
  have untouched: "map (\<lambda>old. if link_conflict (?new ts' raw' conf') old
                                then old\<lparr>last_seen := ts'\<rparr> else old) table = table"
    using fresh unfolding same by (induction table) auto
  show ?thesis
    unfolding first
    using hit untouched by (simp add: link_recipe_endpoint_def)
qed

section \<open>The article table\<close>



lemma fingerprint_count_insert:
  assumes "fingerprint p = Some f" and "art_recipe_uid p \<noteq> None"
  shows "fingerprint_count f (insert_article table p) = max 1 (fingerprint_count f table)"
proof (cases "list_ex (\<lambda>row. unique_eq (fingerprint (snd row)) (fingerprint p)) table")
  case True
  then obtain row where "row \<in> set table" "fingerprint (snd row) = Some f"
    using assms(1) by (auto simp: list_ex_iff unique_eq_def)
  then have "filter (\<lambda>row. fingerprint (snd row) = Some f) table \<noteq> []"
    by (auto simp: filter_empty_conv)
  then have "1 \<le> fingerprint_count f table"
    unfolding fingerprint_count_def by (cases "filter (\<lambda>row. fingerprint (snd row) = Some f) table") auto
  with True assms show ?thesis by (simp add: insert_article_def)
next
  case False
  then have "filter (\<lambda>row. fingerprint (snd row) = Some f) table = []"
    using assms(1) by (auto simp: list_ex_iff unique_eq_def filter_empty_conv)
  with False assms show ?thesis by (simp add: insert_article_def fingerprint_count_def)
qed

lemma fingerprint_count_invariant:
  assumes "fingerprint_count f table \<le> 1"
  shows "fingerprint_count f (insert_article table q) \<le> 1"
proof (cases "fingerprint q = Some f \<and> art_recipe_uid q \<noteq> None")
  case True
  then show ?thesis using fingerprint_count_insert[of q f table] assms by simp
next
  case False
  then have "fingerprint_count f (insert_article table q) = fingerprint_count f table"
    by (auto simp: insert_article_def fingerprint_count_def)
  with assms show ?thesis by simp
qed





end
